theory Spec2Isabelle
  imports Complex_Main "HOL-Library.AList" "HOL-Library.Log_Nat"
begin

section \<open>Python values used by the spam detector\<close>

text \<open>
  Exceptions are values: a function that can raise returns \<open>error + 'a\<close>, with
  \<open>Inl\<close> for the exception.
\<close>

datatype error = ZeroDivisionError | ValueError | TypeError | NameError

text \<open>
  A \<open>dict\<close> is an association list in insertion order, as Python keeps it:
  \<open>d[k] = v\<close> is \<open>AList.update k v d\<close> (an existing key keeps its place, a new key
  goes to the end), \<open>d.get(k, default)\<close> is \<open>dict_get\<close> and \<open>k in d\<close> is
  \<open>dict_contains\<close>. A \<open>set\<close> is a list without duplicates; the order in which
  Python enumerates a set is not specified, the model enumerates it in the order of
  \<open>remdups\<close>.

  Numbers are exact: counts are natural numbers and every quantity that Python holds
  in a \<open>float\<close> is a real number, so \<open>/\<close> is exact division and a zero divisor is
  the only way for it to raise. The last section of definitions gives
  \<open>estimate_probabilities\<close> and \<open>classify_message\<close> a second time, over an
  arithmetic that is a parameter, for what depends on the rounding of floats.
\<close>

type_synonym ('k, 'v) dict = "('k \<times> 'v) list"

definition dict_get :: "('k, 'v) dict \<Rightarrow> 'k \<Rightarrow> 'v \<Rightarrow> 'v" where
  "dict_get d k dflt = (case map_of d k of None \<Rightarrow> dflt | Some v \<Rightarrow> v)"

definition dict_contains :: "('k, 'v) dict \<Rightarrow> 'k \<Rightarrow> bool" where
  "dict_contains d k = (map_of d k \<noteq> None)"

text \<open>
  A \<open>str\<close> is a list of characters, one \<open>char\<close> for each code point, which covers the
  code points U+0000 to U+00FF. \<open>str_isalpha\<close>, \<open>str_isspace\<close> and \<open>str_lower\<close> are
  Python's \<open>str.isalpha\<close>, \<open>str.isspace\<close> and \<open>str.lower\<close> on that range.
\<close>

definition str_isalpha :: "char \<Rightarrow> bool" where
  "str_isalpha c =
     (let n = (of_char c :: nat) in
        (65 \<le> n \<and> n \<le> 90) \<or> (97 \<le> n \<and> n \<le> 122) \<or> n = 170 \<or> n = 181 \<or> n = 186 \<or>
        (192 \<le> n \<and> n \<le> 214) \<or> (216 \<le> n \<and> n \<le> 246) \<or> 248 \<le> n)"

definition str_isspace :: "char \<Rightarrow> bool" where
  "str_isspace c =
     (let n = (of_char c :: nat) in
        (9 \<le> n \<and> n \<le> 13) \<or> (28 \<le> n \<and> n \<le> 32) \<or> n = 133 \<or> n = 160)"

definition lower_char :: "char \<Rightarrow> char" where
  "lower_char c =
     (let n = (of_char c :: nat) in
        if (65 \<le> n \<and> n \<le> 90) \<or> (192 \<le> n \<and> n \<le> 214) \<or> (216 \<le> n \<and> n \<le> 222)
        then char_of (n + 32) else c)"

definition str_lower :: "string \<Rightarrow> string" where
  "str_lower s = map lower_char s"

text \<open>
  \<open>s.split()\<close> with no argument: the maximal runs of characters that are not
  whitespace, in order. \<open>cur\<close> is the run being read.
\<close>

fun split_run :: "string \<Rightarrow> string \<Rightarrow> string list" where
  "split_run cur [] = (if cur = [] then [] else [cur])"
| "split_run cur (c # cs) =
     (if str_isspace c
      then (if cur = [] then split_run [] cs else cur # split_run [] cs)
      else split_run (cur @ [c]) cs)"

definition str_split :: "string \<Rightarrow> string list" where
  "str_split s = split_run [] s"

text \<open>\<open>s.index(c)\<close>: the position of the first \<open>c\<close>, ValueError when there is none.\<close>

fun str_index :: "string \<Rightarrow> char \<Rightarrow> error + nat" where
  "str_index [] c = Inl ValueError"
| "str_index (x # xs) c =
     (if x = c then Inr 0
      else (case str_index xs c of Inl e \<Rightarrow> Inl e | Inr i \<Rightarrow> Inr (Suc i)))"

text \<open>\<open>s.replace(old, new)\<close> for a pattern \<open>old\<close> of one character.\<close>

definition str_replace :: "string \<Rightarrow> char \<Rightarrow> string \<Rightarrow> string" where
  "str_replace s old new = concat (map (\<lambda>c. if c = old then new else [c]) s)"

definition tab :: char where
  "tab = CHR 0x09"

text \<open>
  \<open>collections.Counter\<close> is a dict from elements to counts. \<open>Counter(iterable)\<close>
  adds one for each element read; \<open>c += other\<close> adds the counts of \<open>other\<close> key by
  key, a missing key counting as 0, and then drops the entries that are not positive.
\<close>

definition Counter :: "'k list \<Rightarrow> ('k, nat) dict" where
  "Counter iterable = foldl (\<lambda>c elem. AList.update elem (dict_get c elem 0 + 1) c) [] iterable"

definition keep_positive :: "('k, nat) dict \<Rightarrow> ('k, nat) dict" where
  "keep_positive c = filter (\<lambda>(elem, count). 0 < count) c"

definition Counter_iadd :: "('k, nat) dict \<Rightarrow> ('k, nat) dict \<Rightarrow> ('k, nat) dict" where
  "Counter_iadd c other =
     keep_positive
       (foldl (\<lambda>c (elem, count). AList.update elem (dict_get c elem 0 + count) c) c other)"

section \<open>preprocessing.py\<close>

definition split_line :: "string \<Rightarrow> error + (string \<times> string)" where
  "split_line line =
     (case str_index line tab of
        Inl e \<Rightarrow> Inl e
      | Inr tab_index \<Rightarrow>
          (let ann = take tab_index line;
               msg = drop (tab_index + 1) line
           in Inr (ann, str_replace msg tab [])))"

definition count_ham_and_spam :: "(string \<times> string) list \<Rightarrow> nat \<times> nat" where
  "count_ham_and_spam ann_msg_list =
     (length [a . (a, m) \<leftarrow> ann_msg_list, a = ''ham''],
      length [a . (a, m) \<leftarrow> ann_msg_list, a = ''spam''])"

definition clean_msg :: "string \<Rightarrow> string" where
  "clean_msg msg = concat [if str_isalpha c then [c] else '' '' . c \<leftarrow> msg]"

definition split_words :: "string \<Rightarrow> string list" where
  "split_words msg = remdups [str_lower w . w \<leftarrow> str_split msg]"

definition count_words :: "string list \<Rightarrow> (string, nat) dict" where
  "count_words msg_list =
     foldl (\<lambda>word_dict msg. Counter_iadd word_dict (Counter (split_words (clean_msg msg))))
       [] msg_list"

definition count_words_in_ham_and_spam ::
    "(string \<times> string) list \<Rightarrow> (string, nat \<times> nat) dict" where
  "count_words_in_ham_and_spam ann_msg_list =
     (let ham_messages = [m . (a, m) \<leftarrow> ann_msg_list, a = ''ham''];
          ham_word_count = count_words ham_messages;
          spam_messages = [m . (a, m) \<leftarrow> ann_msg_list, a = ''spam''];
          spam_word_count = count_words spam_messages;
          all_words = remdups (map fst ham_word_count @ map fst spam_word_count)
      in foldl (\<lambda>ham_spam_word_count w.
                  AList.update w (dict_get ham_word_count w 0, dict_get spam_word_count w 0)
                    ham_spam_word_count)
           [] all_words)"

section \<open>detector.py\<close>

text \<open>
  The loop of \<open>estimate_probabilities\<close> over \<open>word_counts.items()\<close>; \<open>n_ham\<close> and
  \<open>n_spam\<close> are the class counts as they stand when the loop starts.
\<close>

fun estimate_words ::
    "real \<Rightarrow> real \<Rightarrow> real \<Rightarrow> ('k, real \<times> real) dict \<Rightarrow> ('k, real \<times> real) dict \<Rightarrow>
     error + ('k, real \<times> real) dict" where
  "estimate_words n_ham n_spam alpha [] p_word_knowing_class = Inr p_word_knowing_class"
| "estimate_words n_ham n_spam alpha ((word, (n_word_ham, n_word_spam)) # items)
       p_word_knowing_class =
     (if n_ham = 0 then Inl ZeroDivisionError
      else if n_spam = 0 then Inl ZeroDivisionError
      else (let p_word_ham = (n_word_ham + alpha) / n_ham;
                p_word_spam = (n_word_spam + alpha) / n_spam
            in estimate_words n_ham n_spam alpha items
                 (AList.update word (p_word_ham, p_word_spam) p_word_knowing_class)))"

definition estimate_probabilities ::
    "('k, real \<times> real) dict \<Rightarrow> real \<times> real \<Rightarrow> real \<Rightarrow>
     error + (('k, real \<times> real) dict \<times> (real \<times> real))" where
  "estimate_probabilities word_counts n_classes alpha =
     (case n_classes of (n_ham0, n_spam0) \<Rightarrow>
        (let n_tot = n_ham0 + n_spam0 + 2 * alpha;
             n_ham = (if alpha > 0 then n_ham0 + alpha else n_ham0);
             n_spam = (if alpha > 0 then n_spam0 + alpha else n_spam0)
         in if n_tot = 0 then Inl ZeroDivisionError
            else (let p_ham = n_ham / n_tot;
                      p_spam = n_spam / n_tot;
                      p_class = (p_ham, p_spam)
                  in (case estimate_words n_ham n_spam alpha word_counts [] of
                        Inl e \<Rightarrow> Inl e
                      | Inr p_word_knowing_class \<Rightarrow> Inr (p_word_knowing_class, p_class)))))"

text \<open>
  \<open>classify_message\<close> in two steps: \<open>joint_products\<close> is the loop over the words
  of the message followed by the multiplication with the class priors;
  \<open>classify_message\<close> divides both products by their sum.
\<close>

definition joint_products ::
    "string \<Rightarrow> (string, real \<times> real) dict \<times> (real \<times> real) \<Rightarrow> real \<times> real" where
  "joint_products message prob_info =
     (case prob_info of (p_word_class, p_class) \<Rightarrow>
        (let msg_words = split_words (clean_msg message);
             (p_msg_ham, p_msg_spam) =
               foldl (\<lambda>(p_msg_ham, p_msg_spam) word.
                        (case dict_get p_word_class word (1, 1) of
                           (p_word_ham, p_word_spam) \<Rightarrow>
                             (p_msg_ham * p_word_ham, p_msg_spam * p_word_spam)))
                 (1, 1) msg_words;
             (p_ham, p_spam) = p_class
         in (p_msg_ham * p_ham, p_msg_spam * p_spam)))"

definition classify_message ::
    "string \<Rightarrow> (string, real \<times> real) dict \<times> (real \<times> real) \<Rightarrow> error + (real \<times> real)" where
  "classify_message message prob_info =
     (case joint_products message prob_info of (p_msg_ham_p_ham, p_msg_spam_p_spam) \<Rightarrow>
        (let p_msg_tot = p_msg_ham_p_ham + p_msg_spam_p_spam
         in if p_msg_tot = 0 then Inl ZeroDivisionError
            else Inr (p_msg_ham_p_ham / p_msg_tot, p_msg_spam_p_spam / p_msg_tot)))"

text \<open>
  The object: \<open>sd_x\<close> is the attribute \<open>self.x\<close> (\<open>sd_word_counts\<close> is
  \<open>self._word_counts\<close>), \<open>None\<close> until \<open>fit\<close> has set it.
\<close>

record SpamDetector =
  sd_alpha :: real
  sd_word_counts :: "(string, nat \<times> nat) dict option"
  sd_n_train_messages :: "nat option"
  sd_n_ham :: "nat option"
  sd_n_spam :: "nat option"
  sd_prob_info :: "((string, real \<times> real) dict \<times> (real \<times> real)) option"

definition init :: "real \<Rightarrow> SpamDetector" where
  "init alpha =
     \<lparr>sd_alpha = alpha, sd_word_counts = None, sd_n_train_messages = None,
      sd_n_ham = None, sd_n_spam = None, sd_prob_info = None\<rparr>"

text \<open>
  A name that a method uses without a prefix is looked up among the global names of
  the module and then among the builtins, never in the body of the class. The global
  names of detector.py are \<open>pp\<close> and \<open>SpamDetector\<close>:
  \<open>estimate_probabilities\<close> and \<open>classify_message\<close> are defined inside the body of
  the class, after \<open>predict\<close>, so they are attributes of \<open>SpamDetector\<close> and no
  global name. Neither is a builtin. \<open>load_global\<close> is the lookup of such a name;
  it raises NameError when the name is not bound. As attributes of the class the two
  functions can still be called, \<open>SpamDetector.classify_message(message, prob_info)\<close>,
  and the definitions above are what such a call computes.
\<close>

definition detector_globals :: "string list" where
  "detector_globals = [''pp'', ''SpamDetector'']"

definition load_global :: "string \<Rightarrow> error + unit" where
  "load_global name = (if name \<in> set detector_globals then Inr () else Inl NameError)"

text \<open>
  \<open>fit\<close> updates the object and returns it, or raises. The model returns the
  outcome of the call together with the object as the call leaves it, which holds the
  attributes assigned before an exception. The name \<open>estimate_probabilities\<close> is
  looked up before its arguments are evaluated. The counts are integers in Python and
  are read as reals by \<open>estimate_probabilities\<close>.
\<close>

definition fit ::
    "SpamDetector \<Rightarrow> string list \<Rightarrow> string list \<Rightarrow> (error + unit) \<times> SpamDetector" where
  "fit self messages classes =
     (let ann_msg = zip classes messages;
          self = self\<lparr>sd_n_train_messages := Some (length ann_msg)\<rparr>;
          word_counts = count_words_in_ham_and_spam ann_msg;
          self = self\<lparr>sd_word_counts := Some word_counts\<rparr>;
          (n_ham, n_spam) = count_ham_and_spam ann_msg;
          self = self\<lparr>sd_n_ham := Some n_ham, sd_n_spam := Some n_spam\<rparr>
      in (case load_global ''estimate_probabilities'' of
            Inl e \<Rightarrow> (Inl e, self)
          | Inr _ \<Rightarrow>
              (case estimate_probabilities
                      [(w, (real n_word_ham, real n_word_spam)) .
                         (w, (n_word_ham, n_word_spam)) \<leftarrow> word_counts]
                      (real n_ham, real n_spam) (sd_alpha self) of
                 Inl e \<Rightarrow> (Inl e, self)
               | Inr prob_info \<Rightarrow> (Inr (), self\<lparr>sd_prob_info := Some prob_info\<rparr>))))"

text \<open>
  \<open>predict_proba\<close> and \<open>predict\<close> take one message (a \<open>str\<close>) or a sequence of
  messages and answer in the same shape. \<open>classify_with\<close> is one call
  \<open>classify_message(msg, self._prob_info)\<close> from a method: the name is looked up
  first; unpacking \<open>self._prob_info\<close> when it is still \<open>None\<close> would raise
  TypeError. A sequence is classified message by message, so an empty sequence makes
  no call.
\<close>

datatype 'a one_or_seq = Single 'a | Seq "'a list"

definition classify_with ::
    "((string, real \<times> real) dict \<times> (real \<times> real)) option \<Rightarrow> string \<Rightarrow> error + (real \<times> real)" where
  "classify_with prob_info msg =
     (case load_global ''classify_message'' of
        Inl e \<Rightarrow> Inl e
      | Inr _ \<Rightarrow>
          (case prob_info of None \<Rightarrow> Inl TypeError | Some p \<Rightarrow> classify_message msg p))"

fun classify_all ::
    "((string, real \<times> real) dict \<times> (real \<times> real)) option \<Rightarrow> string list \<Rightarrow>
     error + (real \<times> real) list" where
  "classify_all prob_info [] = Inr []"
| "classify_all prob_info (msg # messages) =
     (case classify_with prob_info msg of
        Inl e \<Rightarrow> Inl e
      | Inr p \<Rightarrow> (case classify_all prob_info messages of
                   Inl e \<Rightarrow> Inl e
                 | Inr ps \<Rightarrow> Inr (p # ps)))"

fun predict_proba ::
    "SpamDetector \<Rightarrow> string one_or_seq \<Rightarrow> error + (real \<times> real) one_or_seq" where
  "predict_proba self (Single message) =
     (case classify_with (sd_prob_info self) message of
        Inl e \<Rightarrow> Inl e | Inr p \<Rightarrow> Inr (Single p))"
| "predict_proba self (Seq messages) =
     (case classify_all (sd_prob_info self) messages of
        Inl e \<Rightarrow> Inl e | Inr ps \<Rightarrow> Inr (Seq ps))"

definition predict :: "SpamDetector \<Rightarrow> string one_or_seq \<Rightarrow> error + string one_or_seq" where
  "predict self messages =
     (case predict_proba self messages of
        Inl e \<Rightarrow> Inl e
      | Inr (Single probs) \<Rightarrow> Inr (Single (if fst probs > 1 / 2 then ''ham'' else ''spam''))
      | Inr (Seq probs) \<Rightarrow> Inr (Seq [if fst p > 1 / 2 then ''ham'' else ''spam'' . p \<leftarrow> probs]))"

text \<open>
  The loop of \<open>predict_word_proba\<close> over the words of the message. \<open>w in None\<close>
  raises TypeError, so an object that was never fitted fails at the first word.
\<close>

fun word_proba_loop ::
    "real \<Rightarrow> (string, nat \<times> nat) dict option \<Rightarrow> string list \<Rightarrow> (string, real \<times> real) dict \<Rightarrow>
     error + (string, real \<times> real) dict" where
  "word_proba_loop alpha word_counts [] res = Inr res"
| "word_proba_loop alpha word_counts (w # words) res =
     (case word_counts of
        None \<Rightarrow> Inl TypeError
      | Some wc \<Rightarrow>
          (if dict_contains wc w then
             (case dict_get wc w (0, 0) of (n_w_ham0, n_w_spam0) \<Rightarrow>
                (let n_w_ham = (if alpha > 0 then real n_w_ham0 + alpha else real n_w_ham0);
                     n_w_spam = (if alpha > 0 then real n_w_spam0 + alpha else real n_w_spam0);
                     n_w_tot = n_w_ham + n_w_spam
                 in if n_w_tot = 0 then Inl ZeroDivisionError
                    else (let p_ham_word = n_w_ham / n_w_tot;
                              p_spam_word = n_w_spam / n_w_tot
                          in word_proba_loop alpha word_counts words
                               (AList.update w (p_ham_word, p_spam_word) res))))
           else word_proba_loop alpha word_counts words res))"

definition predict_word_proba ::
    "SpamDetector \<Rightarrow> string \<Rightarrow> error + (string, real \<times> real) dict" where
  "predict_word_proba self message =
     (let words = split_words (clean_msg message)
      in word_proba_loop (sd_alpha self) (sd_word_counts self) words [])"

section \<open>detector.py in the arithmetic of floats\<close>

text \<open>
  An arithmetic is what the two functions use of a number type: the conversion of an
  integer count, the three operations, and the test \<open>x > 0\<close>. The literal \<open>1.0\<close> is
  \<open>num_of_nat 1\<close> and a divisor is zero when it equals \<open>num_of_nat 0\<close>.
\<close>

record 'a arith =
  num_of_nat :: "nat \<Rightarrow> 'a"
  num_add :: "'a \<Rightarrow> 'a \<Rightarrow> 'a"
  num_mul :: "'a \<Rightarrow> 'a \<Rightarrow> 'a"
  num_div :: "'a \<Rightarrow> 'a \<Rightarrow> 'a"
  num_pos :: "'a \<Rightarrow> bool"

definition exact_arith :: "real arith" where
  "exact_arith =
     \<lparr>num_of_nat = real, num_add = (+), num_mul = (*), num_div = (/), num_pos = (\<lambda>x. 0 < x)\<rparr>"

text \<open>
  A Python \<open>float\<close> is an IEEE 754 double. A finite double is the rational number it
  stands for, and an operation returns the exact result rounded to the nearest number
  with 53 significant bits, a tie going to the even one. \<open>floor_log2 x\<close> is the
  exponent \<open>e\<close> with \<open>2^e \<le> x < 2^(e+1)\<close>, for \<open>x > 0\<close>. The exponent is not
  bounded here: overflow, subnormal numbers, infinities, NaN and the sign of zero are
  outside this model.
\<close>

definition pow2 :: "int \<Rightarrow> rat" where
  "pow2 e = (if 0 \<le> e then 2 ^ nat e else 1 / 2 ^ nat (- e))"

definition floor_log2 :: "rat \<Rightarrow> int" where
  "floor_log2 x =
     (if 1 \<le> x then bitlen \<lfloor>x\<rfloor> - 1 else - bitlen (\<lceil>1 / x\<rceil> - 1))"

definition round_half_even :: "rat \<Rightarrow> int" where
  "round_half_even x =
     (let n = \<lfloor>x\<rfloor>; r = x - of_int n
      in if r < 1 / 2 then n else if 1 / 2 < r then n + 1 else if even n then n else n + 1)"

definition round_double :: "rat \<Rightarrow> rat" where
  "round_double x =
     (if x = 0 then 0
      else (let ulp = pow2 (floor_log2 \<bar>x\<bar> - 52)
            in sgn x * of_int (round_half_even (\<bar>x\<bar> / ulp)) * ulp))"

definition double_of_nat :: "nat \<Rightarrow> rat" where
  "double_of_nat n = round_double (of_nat n)"

definition double_add :: "rat \<Rightarrow> rat \<Rightarrow> rat" where
  "double_add x y = round_double (x + y)"

definition double_mul :: "rat \<Rightarrow> rat \<Rightarrow> rat" where
  "double_mul x y = round_double (x * y)"

definition double_div :: "rat \<Rightarrow> rat \<Rightarrow> rat" where
  "double_div x y = round_double (x / y)"

definition double_arith :: "rat arith" where
  "double_arith =
     \<lparr>num_of_nat = double_of_nat, num_add = double_add, num_mul = double_mul,
      num_div = double_div, num_pos = (\<lambda>x. 0 < x)\<rparr>"

text \<open>
  \<open>estimate_probabilities\<close> over an arithmetic \<open>A\<close>. The counts are Python integers:
  \<open>n_ham + n_spam\<close> is an integer sum, and an integer is converted where it meets a
  float.
\<close>

fun estimate_words_num ::
    "'a arith \<Rightarrow> 'a \<Rightarrow> 'a \<Rightarrow> 'a \<Rightarrow> ('k, nat \<times> nat) dict \<Rightarrow> ('k, 'a \<times> 'a) dict \<Rightarrow>
     error + ('k, 'a \<times> 'a) dict" where
  "estimate_words_num A n_ham n_spam alpha [] p_word_knowing_class = Inr p_word_knowing_class"
| "estimate_words_num A n_ham n_spam alpha ((word, (n_word_ham, n_word_spam)) # items)
       p_word_knowing_class =
     (if n_ham = num_of_nat A 0 then Inl ZeroDivisionError
      else if n_spam = num_of_nat A 0 then Inl ZeroDivisionError
      else (let p_word_ham = num_div A (num_add A (num_of_nat A n_word_ham) alpha) n_ham;
                p_word_spam = num_div A (num_add A (num_of_nat A n_word_spam) alpha) n_spam
            in estimate_words_num A n_ham n_spam alpha items
                 (AList.update word (p_word_ham, p_word_spam) p_word_knowing_class)))"

definition estimate_probabilities_num ::
    "'a arith \<Rightarrow> ('k, nat \<times> nat) dict \<Rightarrow> nat \<times> nat \<Rightarrow> 'a \<Rightarrow>
     error + (('k, 'a \<times> 'a) dict \<times> ('a \<times> 'a))" where
  "estimate_probabilities_num A word_counts n_classes alpha =
     (case n_classes of (n_ham0, n_spam0) \<Rightarrow>
        (let n_tot = num_add A (num_of_nat A (n_ham0 + n_spam0))
                       (num_mul A (num_of_nat A 2) alpha);
             n_ham = (if num_pos A alpha then num_add A (num_of_nat A n_ham0) alpha
                      else num_of_nat A n_ham0);
             n_spam = (if num_pos A alpha then num_add A (num_of_nat A n_spam0) alpha
                       else num_of_nat A n_spam0)
         in if n_tot = num_of_nat A 0 then Inl ZeroDivisionError
            else (let p_ham = num_div A n_ham n_tot;
                      p_spam = num_div A n_spam n_tot;
                      p_class = (p_ham, p_spam)
                  in (case estimate_words_num A n_ham n_spam alpha word_counts [] of
                        Inl e \<Rightarrow> Inl e
                      | Inr p_word_knowing_class \<Rightarrow> Inr (p_word_knowing_class, p_class)))))"

text \<open>\<open>classify_message\<close> over an arithmetic \<open>A\<close>, in the same two steps.\<close>

definition joint_products_num ::
    "'a arith \<Rightarrow> string \<Rightarrow> (string, 'a \<times> 'a) dict \<times> ('a \<times> 'a) \<Rightarrow> 'a \<times> 'a" where
  "joint_products_num A message prob_info =
     (case prob_info of (p_word_class, p_class) \<Rightarrow>
        (let msg_words = split_words (clean_msg message);
             (p_msg_ham, p_msg_spam) =
               foldl (\<lambda>(p_msg_ham, p_msg_spam) word.
                        (case dict_get p_word_class word (num_of_nat A 1, num_of_nat A 1) of
                           (p_word_ham, p_word_spam) \<Rightarrow>
                             (num_mul A p_msg_ham p_word_ham, num_mul A p_msg_spam p_word_spam)))
                 (num_of_nat A 1, num_of_nat A 1) msg_words;
             (p_ham, p_spam) = p_class
         in (num_mul A p_msg_ham p_ham, num_mul A p_msg_spam p_spam)))"

definition classify_message_num ::
    "'a arith \<Rightarrow> string \<Rightarrow> (string, 'a \<times> 'a) dict \<times> ('a \<times> 'a) \<Rightarrow> error + ('a \<times> 'a)" where
  "classify_message_num A message prob_info =
     (case joint_products_num A message prob_info of (p_msg_ham_p_ham, p_msg_spam_p_spam) \<Rightarrow>
        (let p_msg_tot = num_add A p_msg_ham_p_ham p_msg_spam_p_spam
         in if p_msg_tot = num_of_nat A 0 then Inl ZeroDivisionError
            else Inr (num_div A p_msg_ham_p_ham p_msg_tot, num_div A p_msg_spam_p_spam p_msg_tot)))"

section \<open>The loop of \<open>estimate_probabilities\<close>\<close>

lemma estimate_words_Inr:
  "n_ham \<noteq> 0 \<Longrightarrow> n_spam \<noteq> 0 \<Longrightarrow>
   estimate_words n_ham n_spam alpha items acc =
     Inr (foldl (\<lambda>d (w, (a, b)). AList.update w ((a + alpha) / n_ham, (b + alpha) / n_spam) d)
            acc items)"
  by (induction items arbitrary: acc) auto

lemma estimate_words_Inl:
  "items \<noteq> [] \<Longrightarrow> n_ham = 0 \<or> n_spam = 0 \<Longrightarrow>
   estimate_words n_ham n_spam alpha items acc = Inl ZeroDivisionError"
  by (cases items) auto

text \<open>
  Storing \<open>f v\<close> under each key of a dict, item by item, gives a dict that maps the
  same keys to the images of their values.
\<close>

lemma map_of_foldl_update:
  "distinct (map fst items) \<Longrightarrow>
   map_of (foldl (\<lambda>d (w, v). AList.update w (f v) d) acc items) w =
     (case map_of items w of None \<Rightarrow> map_of acc w | Some v \<Rightarrow> Some (f v))"
proof (induction items arbitrary: acc)
  case Nil
  show ?case by simp
next
  case (Cons p items)
  obtain k v where p: "p = (k, v)" by (cases p)
  from Cons.prems p have k: "k \<notin> fst ` set items" and d: "distinct (map fst items)"
    by auto
  from k have none: "map_of items k = None"
    by (simp add: map_of_eq_None_iff)
  show ?case
    using Cons.IH [OF d, of "AList.update k (f v) acc"] none
    by (auto simp: p AList.update_conv' split: option.splits)
qed

section \<open>The loop of \<open>classify_message\<close>\<close>

text \<open>Products of numbers that are not negative are not negative.\<close>

lemma joint_loop_nonneg:
  assumes "\<forall>(w, (a, b)) \<in> set p_word_class. 0 \<le> a \<and> 0 \<le> b"
    and "0 \<le> fst acc" and "0 \<le> snd acc"
  shows "0 \<le> fst (foldl (\<lambda>(p_msg_ham, p_msg_spam) word.
                        (case dict_get p_word_class word (1, 1) of
                           (p_word_ham, p_word_spam) \<Rightarrow>
                             (p_msg_ham * p_word_ham, p_msg_spam * p_word_spam))) acc ws) \<and>
         0 \<le> snd (foldl (\<lambda>(p_msg_ham, p_msg_spam) word.
                        (case dict_get p_word_class word (1 :: real, 1 :: real) of
                           (p_word_ham, p_word_spam) \<Rightarrow>
                             (p_msg_ham * p_word_ham, p_msg_spam * p_word_spam))) acc ws)"
  using assms(2,3)
proof (induction ws arbitrary: acc)
  case Nil
  then show ?case by simp
next
  case (Cons w ws)
  obtain x y where acc: "acc = (x, y)" by (cases acc)
  obtain a b where g: "dict_get p_word_class w (1, 1) = (a, b)"
    by (cases "dict_get p_word_class w (1 :: real, 1 :: real)")
  have "0 \<le> a \<and> 0 \<le> b"
  proof (cases "map_of p_word_class w")
    case None
    with g show ?thesis by (simp add: dict_get_def)
  next
    case (Some v)
    with g have "(w, (a, b)) \<in> set p_word_class"
      by (auto simp: dict_get_def dest: map_of_SomeD)
    with assms(1) show ?thesis by auto
  qed
  with Cons.prems acc have "0 \<le> x * a" "0 \<le> y * b" by simp_all
  then show ?case using Cons.IH [of "(x * a, y * b)"] by (simp add: acc g)
qed

lemma joint_products_nonneg:
  assumes "\<forall>(w, (a, b)) \<in> set p_word_class. 0 \<le> a \<and> 0 \<le> b"
    and "0 \<le> p_ham" and "0 \<le> p_spam"
  shows "0 \<le> fst (joint_products message (p_word_class, (p_ham, p_spam))) \<and>
         0 \<le> snd (joint_products message (p_word_class, (p_ham, p_spam)))"
  using joint_loop_nonneg [OF assms(1), of "(1, 1)" "split_words (clean_msg message)"] assms(2,3)
  by (simp add: joint_products_def Let_def case_prod_unfold)

section \<open>Claims on \<open>estimate_probabilities\<close>\<close>

text \<open>
  C1. Whenever none of its divisions is by zero, \<open>estimate_probabilities\<close> returns,
  and the dict it returns maps every word of \<open>word_counts\<close>, with counts
  \<open>(n_word_ham, n_word_spam)\<close>, to
  \<open>((n_word_ham + alpha) / smoothed_n_ham, (n_word_spam + alpha) / smoothed_n_spam)\<close>
  and has no other key. The divisors are the class counts after smoothing,
  \<open>n_ham + alpha\<close> and \<open>n_spam + alpha\<close> when \<open>alpha > 0\<close> and the counts themselves
  otherwise: the numerators of the priors, not the raw counts. The keys of a dict are
  distinct.
\<close>

theorem estimate_probabilities_word_conditionals:
  assumes "distinct (map fst word_counts)"
    and "n_ham + n_spam + 2 * alpha \<noteq> 0"
    and "(if 0 < alpha then n_ham + alpha else n_ham) \<noteq> 0"
    and "(if 0 < alpha then n_spam + alpha else n_spam) \<noteq> 0"
  shows "\<exists>p_word_knowing_class p_class.
           estimate_probabilities word_counts (n_ham, n_spam) alpha =
             Inr (p_word_knowing_class, p_class) \<and>
           (\<forall>word. map_of p_word_knowing_class word =
              map_option
                (\<lambda>(n_word_ham, n_word_spam).
                   ((n_word_ham + alpha) / (if 0 < alpha then n_ham + alpha else n_ham),
                    (n_word_spam + alpha) / (if 0 < alpha then n_spam + alpha else n_spam)))
                (map_of word_counts word))"
proof -
  let ?sh = "if 0 < alpha then n_ham + alpha else n_ham"
  let ?ss = "if 0 < alpha then n_spam + alpha else n_spam"
  let ?f = "\<lambda>(a, b). ((a + alpha) / ?sh, (b + alpha) / ?ss)"
  let ?pw = "foldl (\<lambda>d (w, v). AList.update w (?f v) d) [] word_counts"
  have loop: "estimate_words ?sh ?ss alpha word_counts [] = Inr ?pw"
    using estimate_words_Inr [OF assms(3) assms(4), of alpha word_counts "[]"]
    by (simp add: case_prod_unfold)
  have est: "estimate_probabilities word_counts (n_ham, n_spam) alpha =
               Inr (?pw, (?sh / (n_ham + n_spam + 2 * alpha), ?ss / (n_ham + n_spam + 2 * alpha)))"
    unfolding estimate_probabilities_def using assms(2) loop by (simp add: Let_def)
  have look: "map_of ?pw word = map_option ?f (map_of word_counts word)" for word
    using map_of_foldl_update [OF assms(1), of ?f "[]" word]
    by (simp split: option.splits)
  show ?thesis using est look by blast
qed

theorem estimate_probabilities_word_conditionals_witness:
  "\<exists>p_word_knowing_class p_class.
     estimate_probabilities [(''free'', (1, 3)), (''hello'', (2, 0))] (2, 3) 1 =
       Inr (p_word_knowing_class, p_class) \<and>
     map_of p_word_knowing_class ''free'' = Some (2 / 3, 1) \<and>
     map_of p_word_knowing_class ''hello'' = Some (1, 1 / 4)"
proof -
  obtain pw pc where
    e: "estimate_probabilities [(''free'', (1, 3)), (''hello'', (2, 0))] (2, 3) 1 = Inr (pw, pc)"
    and l: "\<And>word. map_of pw word =
              map_option (\<lambda>(n_word_ham, n_word_spam). ((n_word_ham + 1) / 3, (n_word_spam + 1) / 4))
                (map_of [(''free'', (1, 3)), (''hello'', (2, 0))] word)"
    using estimate_probabilities_word_conditionals
            [of "[(''free'', (1, 3)), (''hello'', (2, 0))]" 2 3 1]
    by auto
  from e l [of "''free''"] l [of "''hello''"] show ?thesis by simp
qed

text \<open>
  C4. For \<open>alpha > 0\<close> and class counts that are not negative,
  \<open>estimate_probabilities\<close> returns, whatever the word counts, and its class priors are
  \<open>(n_ham + alpha) / (n_ham + n_spam + 2 * alpha)\<close> and
  \<open>(n_spam + alpha) / (n_ham + n_spam + 2 * alpha)\<close>, which sum to 1.
\<close>

theorem estimate_probabilities_priors_sum:
  assumes "0 < alpha" and "0 \<le> n_ham" and "0 \<le> n_spam"
  shows "\<exists>p_word_knowing_class p_ham p_spam.
           estimate_probabilities word_counts (n_ham, n_spam) alpha =
             Inr (p_word_knowing_class, (p_ham, p_spam)) \<and>
           p_ham = (n_ham + alpha) / (n_ham + n_spam + 2 * alpha) \<and>
           p_spam = (n_spam + alpha) / (n_ham + n_spam + 2 * alpha) \<and>
           p_ham + p_spam = 1"
proof -
  from assms have tot: "n_ham + n_spam + 2 * alpha \<noteq> 0"
    and h: "n_ham + alpha \<noteq> 0" and s: "n_spam + alpha \<noteq> 0"
    by auto
  have sum: "(n_ham + alpha) / (n_ham + n_spam + 2 * alpha) +
             (n_spam + alpha) / (n_ham + n_spam + 2 * alpha) = 1"
    using tot by (simp add: add_divide_distrib [symmetric])
  show ?thesis
    unfolding estimate_probabilities_def
    using assms(1) tot sum estimate_words_Inr [OF h s, of alpha word_counts "[]"]
    by (simp add: Let_def)
qed

theorem estimate_probabilities_priors_sum_witness:
  "\<exists>p_word_knowing_class p_ham p_spam.
     estimate_probabilities [(''hello'', (1, 0))] (2, 1) (1 :: real) =
       Inr (p_word_knowing_class, (p_ham, p_spam)) \<and>
     p_ham = 3 / 5 \<and> p_spam = 2 / 5 \<and> p_ham + p_spam = 1"
  using estimate_probabilities_priors_sum [of 1 2 1 "[(''hello'', (1, 0))]"]
  by simp

text \<open>
  C10. With \<open>alpha = 0\<close>, no message of one class, \<open>n > 0\<close> messages of the other and
  at least one word in \<open>word_counts\<close>, \<open>estimate_probabilities\<close> raises
  ZeroDivisionError, although one of the three numbers is positive: the first word
  is divided by the empty class count.
\<close>

theorem estimate_probabilities_zero_class:
  assumes "word_counts \<noteq> []" and "0 < n"
  shows "estimate_probabilities word_counts (0, n) 0 = Inl ZeroDivisionError \<and>
         estimate_probabilities word_counts (n, 0) 0 = Inl ZeroDivisionError"
  unfolding estimate_probabilities_def
  using assms estimate_words_Inl [of word_counts 0 n 0 "[]"]
    estimate_words_Inl [of word_counts n 0 0 "[]"]
  by (simp add: Let_def)

theorem estimate_probabilities_zero_class_witness:
  "estimate_probabilities [(''win'', (0, 1))] (0, 1) 0 = Inl ZeroDivisionError \<and>
   estimate_probabilities [(''win'', (1, 0))] (1, 0) 0 = Inl ZeroDivisionError"
  using estimate_probabilities_zero_class [of "[(''win'', (0::real, 1::real))]" 1]
    estimate_probabilities_zero_class [of "[(''win'', (1::real, 0::real))]" 1]
  by simp

section \<open>Claims on \<open>split_line\<close>\<close>

text \<open>
  C9. On the line \<open>ham<TAB>a<TAB>b\<close> the label is \<open>ham\<close> and the body is \<open>ab\<close>: the
  tab that was inside the body has been removed, and no space stands in its place.
\<close>

theorem split_line_removes_tabs:
  "split_line (''ham'' @ [tab] @ ''a'' @ [tab] @ ''b'') = Inr (''ham'', ''ab'')"
  by (simp add: split_line_def tab_def str_replace_def)

text \<open>
  The loop multiplies, so its result does not depend on the order in which the set of
  words is enumerated.
\<close>

lemma joint_loop_products:
  "foldl (\<lambda>(p_msg_ham, p_msg_spam) word.
            (case dict_get p_word_class word (1 :: real, 1 :: real) of
               (p_word_ham, p_word_spam) \<Rightarrow>
                 (p_msg_ham * p_word_ham, p_msg_spam * p_word_spam))) acc ws =
     (fst acc * prod_list [fst (dict_get p_word_class w (1, 1)) . w \<leftarrow> ws],
      snd acc * prod_list [snd (dict_get p_word_class w (1, 1)) . w \<leftarrow> ws])"
  by (induction ws arbitrary: acc) (auto simp: case_prod_unfold mult.assoc)

lemma joint_loop_any_order:
  assumes "distinct (ws :: 'k list)" and "distinct ws'" and "set ws = set ws'"
  shows "foldl (\<lambda>(p_msg_ham, p_msg_spam) word.
            (case dict_get p_word_class word (1 :: real, 1 :: real) of
               (p_word_ham, p_word_spam) \<Rightarrow>
                 (p_msg_ham * p_word_ham, p_msg_spam * p_word_spam))) acc ws =
         foldl (\<lambda>(p_msg_ham, p_msg_spam) word.
            (case dict_get p_word_class word (1 :: real, 1 :: real) of
               (p_word_ham, p_word_spam) \<Rightarrow>
                 (p_msg_ham * p_word_ham, p_msg_spam * p_word_spam))) acc ws'"
proof -
  have "prod_list (map g ws) = prod_list (map g ws')" for g :: "'k \<Rightarrow> real"
    using assms by (simp add: prod.distinct_set_conv_list [symmetric])
  then show ?thesis unfolding joint_loop_products by simp
qed

section \<open>The priors of an estimated model\<close>

text \<open>
  When \<open>estimate_probabilities\<close> returns, the total was not zero and the priors are
  the two smoothed counts over it.
\<close>

lemma estimate_probabilities_InrD:
  assumes "estimate_probabilities word_counts (n_ham, n_spam) alpha = Inr (p_word_knowing_class, p_class)"
  shows "n_ham + n_spam + 2 * alpha \<noteq> 0 \<and>
         p_class = ((if 0 < alpha then n_ham + alpha else n_ham) / (n_ham + n_spam + 2 * alpha),
                    (if 0 < alpha then n_spam + alpha else n_spam) / (n_ham + n_spam + 2 * alpha))"
  using assms
  by (auto simp: estimate_probabilities_def Let_def split: if_splits sum.splits)

section \<open>Claims on \<open>classify_message\<close>\<close>

text \<open>
  C2. For a model whose priors and word probabilities are not negative, and a message
  on which the two joint products are not both zero, \<open>classify_message\<close> returns a
  pair of posteriors, and the pair sums to 1.
\<close>

theorem classify_message_sums_to_one:
  assumes "\<forall>(w, (a, b)) \<in> set p_word_class. 0 \<le> a \<and> 0 \<le> b"
    and "0 \<le> p_ham" and "0 \<le> p_spam"
    and "joint_products message (p_word_class, (p_ham, p_spam)) \<noteq> (0, 0)"
  shows "\<exists>post_ham post_spam.
           classify_message message (p_word_class, (p_ham, p_spam)) = Inr (post_ham, post_spam) \<and>
           post_ham + post_spam = 1"
proof -
  obtain jh js where j: "joint_products message (p_word_class, (p_ham, p_spam)) = (jh, js)"
    by (cases "joint_products message (p_word_class, (p_ham, p_spam))")
  from joint_products_nonneg [OF assms(1,2,3), of message] j have "0 \<le> jh" "0 \<le> js"
    by simp_all
  moreover from assms(4) j have "jh \<noteq> 0 \<or> js \<noteq> 0" by simp
  ultimately have tot: "jh + js \<noteq> 0" by linarith
  then have "jh / (jh + js) + js / (jh + js) = 1"
    by (simp add: add_divide_distrib [symmetric])
  with tot j show ?thesis by (simp add: classify_message_def Let_def)
qed

theorem classify_message_sums_to_one_witness:
  "\<exists>post_ham post_spam.
     classify_message ''free money'' ([(''free'', (1 / 2, 1)), (''hi'', (1, 1 / 2))], (1 / 2, 1 / 2)) =
       Inr (post_ham, post_spam) \<and>
     post_ham + post_spam = 1"
proof -
  have j: "joint_products ''free money''
             ([(''free'', (1 / 2, 1)), (''hi'', (1, 1 / 2))], (1 / 2, 1 / 2)) \<noteq> (0, 0)"
    by code_simp
  show ?thesis
    using classify_message_sums_to_one
      [of "[(''free'', (1 / 2, 1)), (''hi'', (1, 1 / 2))]" "1 / 2" "1 / 2" "''free money''", OF _ _ _ j]
    by simp
qed

section \<open>Rounding to a double\<close>

text \<open>
  A number \<open>x\<close> with \<open>2^e \<le> x < 2^(e+1)\<close> is rounded to \<open>n * 2^(e-52)\<close> when
  \<open>x / 2^(e-52)\<close> is less than one half away from the integer \<open>n\<close>.
\<close>

lemma bitlen_eqI:
  assumes "2 ^ k \<le> n" and "n < 2 ^ Suc k"
  shows "bitlen n = int (Suc k)"
proof -
  have "(0 :: int) < 2 ^ k" by simp
  with assms(1) have pos: "0 < n" by linarith
  have "bitlen n \<le> int (Suc k)"
    using assms(2) bitlen_le_iff_power [of n "int (Suc k)"]
    by (simp only: nat_int of_nat_0_le_iff simp_thms)
  moreover have "int (Suc k) \<le> bitlen n"
    using assms(1) bitlen_ge_iff_power [of "int (Suc k)" n]
    by (simp only: nat_int diff_Suc_1 simp_thms)
  ultimately show ?thesis by simp
qed

lemma round_half_even_eqI:
  assumes "\<bar>x - of_int n\<bar> < 1 / 2"
  shows "round_half_even x = n"
proof (cases "of_int n \<le> x")
  case True
  with assms have "\<lfloor>x\<rfloor> = n" by (intro floor_unique) auto
  with assms True show ?thesis by (simp add: round_half_even_def)
next
  case False
  with assms have f: "\<lfloor>x\<rfloor> = n - 1" by (intro floor_unique) auto
  with assms False show ?thesis by (simp add: round_half_even_def)
qed

lemma floor_log2_eqI:
  assumes "pow2 e \<le> x" and "x < pow2 (e + 1)"
  shows "floor_log2 x = e"
proof (cases "0 \<le> e")
  case True
  define k where "k = nat e"
  with True have e: "e = int k" by simp
  from assms have lo: "2 ^ k \<le> x" and hi: "x < 2 ^ Suc k"
    by (simp_all add: pow2_def e nat_add_distrib)
  have one: "1 \<le> x"
    using lo one_le_power [of "2 :: rat" k] by linarith
  have "(2 :: int) ^ k \<le> \<lfloor>x\<rfloor>"
    using lo by (simp add: le_floor_iff)
  moreover have "\<lfloor>x\<rfloor> < 2 ^ Suc k"
    using hi by (simp add: floor_less_iff)
  ultimately have "bitlen \<lfloor>x\<rfloor> = int (Suc k)"
    by (rule bitlen_eqI)
  with one show ?thesis by (simp add: floor_log2_def e)
next
  case False
  define k where "k = nat (- e - 1)"
  with False have e: "e = - int (Suc k)" by simp
  have p: "(0 :: rat) < 2 ^ k" "(0 :: rat) < 2 ^ Suc k" by simp_all
  have pe: "pow2 e = 1 / 2 ^ Suc k"
  proof -
    have "nat (- e) = Suc k" unfolding e by (simp only: minus_minus nat_int)
    moreover have "\<not> 0 \<le> e" using False .
    ultimately show ?thesis by (simp only: pow2_def if_False)
  qed
  have pe1: "pow2 (e + 1) = 1 / 2 ^ k"
  proof (cases k)
    case 0
    then show ?thesis by (simp add: pow2_def e)
  next
    case (Suc j)
    then show ?thesis by (simp add: pow2_def e nat_add_distrib)
  qed
  from assms have lo: "1 / 2 ^ Suc k \<le> x" and hi: "x < 1 / 2 ^ k"
    by (simp_all only: pe pe1)
  have "0 < 1 / (2 :: rat) ^ Suc k" by simp
  with lo have xpos: "0 < x" by linarith
  have "(1 :: rat) \<le> 2 ^ k" by (rule one_le_power) simp
  then have "1 / (2 :: rat) ^ k \<le> 1" by (simp add: divide_simps)
  with hi have lt1: "x < 1" by linarith
  have up: "1 / x \<le> 2 ^ Suc k"
    using lo xpos p(2) by (simp add: field_simps)
  have dn: "2 ^ k < 1 / x"
    using hi xpos p(1) by (simp add: field_simps)
  have "(2 :: int) ^ k \<le> \<lceil>1 / x\<rceil> - 1"
  proof -
    have "of_int ((2 :: int) ^ k) < 1 / x" using dn by simp
    then have "(2 :: int) ^ k < \<lceil>1 / x\<rceil>" by (simp only: less_ceiling_iff)
    then show ?thesis by simp
  qed
  moreover have "\<lceil>1 / x\<rceil> - 1 < 2 ^ Suc k"
  proof -
    have "1 / x \<le> of_int ((2 :: int) ^ Suc k)" using up by simp
    then have "\<lceil>1 / x\<rceil> \<le> 2 ^ Suc k" by (simp only: ceiling_le_iff)
    then show ?thesis by simp
  qed
  ultimately have "bitlen (\<lceil>1 / x\<rceil> - 1) = int (Suc k)"
    by (rule bitlen_eqI)
  with lt1 show ?thesis by (simp add: floor_log2_def e)
qed

lemma round_double_eqI:
  assumes "pow2 e \<le> x" and "x < pow2 (e + 1)"
    and "\<bar>x / pow2 (e - 52) - of_int n\<bar> < 1 / 2"
  shows "round_double x = of_int n * pow2 (e - 52)"
proof -
  have "0 < pow2 e" by (simp add: pow2_def)
  with assms(1) have pos: "0 < x" by linarith
  have f: "floor_log2 x = e"
    using assms(1,2) by (rule floor_log2_eqI)
  have r: "round_half_even (x / pow2 (e - 52)) = n"
    using assms(3) by (rule round_half_even_eqI)
  from pos f r show ?thesis by (simp add: round_double_def Let_def)
qed

section \<open>The two arithmetics\<close>

text \<open>
  With the exact operations, the functions over an arithmetic are the functions of the
  section on detector.py.
\<close>

lemma exact_arith_simps:
  "num_of_nat exact_arith = real" "num_add exact_arith = (+)" "num_mul exact_arith = (*)"
  "num_div exact_arith = (/)" "num_pos exact_arith = (\<lambda>x. 0 < x)"
  by (simp_all add: exact_arith_def)

lemma estimate_words_num_exact:
  "estimate_words_num exact_arith n_ham n_spam alpha items acc =
     estimate_words n_ham n_spam alpha
       [(w, (real n_word_ham, real n_word_spam)) . (w, (n_word_ham, n_word_spam)) \<leftarrow> items] acc"
  by (induction items arbitrary: acc) (auto simp: exact_arith_simps Let_def)

lemma estimate_probabilities_num_exact:
  "estimate_probabilities_num exact_arith word_counts (n_ham, n_spam) alpha =
     estimate_probabilities
       [(w, (real n_word_ham, real n_word_spam)) . (w, (n_word_ham, n_word_spam)) \<leftarrow> word_counts]
       (real n_ham, real n_spam) alpha"
  unfolding estimate_probabilities_num_def estimate_probabilities_def estimate_words_num_exact
    exact_arith_simps
  by (simp add: Let_def)

lemma joint_products_num_exact:
  "joint_products_num exact_arith message prob_info = joint_products message prob_info"
  unfolding joint_products_num_def joint_products_def exact_arith_simps
  by simp

lemma classify_message_num_exact:
  "classify_message_num exact_arith message prob_info = classify_message message prob_info"
  unfolding classify_message_num_def classify_message_def joint_products_num_exact
    exact_arith_simps
  by simp

section \<open>Claims on \<open>classify_message\<close> and unseen words\<close>

lemma joint_loop_unseen_num:
  assumes "\<forall>w \<in> set ws. \<not> dict_contains p_word_class w"
    and "num_mul A (num_of_nat A 1) (num_of_nat A 1) = num_of_nat A 1"
  shows "foldl (\<lambda>(p_msg_ham, p_msg_spam) word.
                  (case dict_get p_word_class word (num_of_nat A 1, num_of_nat A 1) of
                     (p_word_ham, p_word_spam) \<Rightarrow>
                       (num_mul A p_msg_ham p_word_ham, num_mul A p_msg_spam p_word_spam)))
           (num_of_nat A 1, num_of_nat A 1) ws = (num_of_nat A 1, num_of_nat A 1)"
proof -
  from assms(2) have m: "num_mul A (num_of_nat A (Suc 0)) (num_of_nat A (Suc 0)) = num_of_nat A (Suc 0)"
    by simp
  from assms(1) show ?thesis
    by (induction ws) (auto simp: dict_contains_def dict_get_def m split: option.splits)
qed

text \<open>
  C3, as the code has it. Take any arithmetic in which the product of \<open>1.0\<close> with
  \<open>1.0\<close>, with \<open>p_ham\<close> and with \<open>p_spam\<close> is the other factor, as it is for exact
  numbers and for doubles. For a model with the class prior \<open>(p_ham, p_spam)\<close> and a
  message none of whose words is a key of the model's word probabilities, every word
  contributes the pair \<open>(1.0, 1.0)\<close>, the two joint products are exactly \<open>p_ham\<close> and
  \<open>p_spam\<close>, and \<open>classify_message\<close> returns the prior divided by its own sum,
  \<open>(p_ham / (p_ham + p_spam), p_spam / (p_ham + p_spam))\<close>, the sum and the quotients
  as the arithmetic computes them; it raises ZeroDivisionError when that sum is zero.
\<close>

theorem classify_message_unseen_words:
  assumes "\<forall>w \<in> set (split_words (clean_msg message)). \<not> dict_contains p_word_class w"
    and "num_mul A (num_of_nat A 1) (num_of_nat A 1) = num_of_nat A 1"
    and "num_mul A (num_of_nat A 1) p_ham = p_ham"
    and "num_mul A (num_of_nat A 1) p_spam = p_spam"
  shows "joint_products_num A message (p_word_class, (p_ham, p_spam)) = (p_ham, p_spam) \<and>
         classify_message_num A message (p_word_class, (p_ham, p_spam)) =
           (if num_add A p_ham p_spam = num_of_nat A 0 then Inl ZeroDivisionError
            else Inr (num_div A p_ham (num_add A p_ham p_spam),
                      num_div A p_spam (num_add A p_ham p_spam)))"
proof -
  have j: "joint_products_num A message (p_word_class, (p_ham, p_spam)) = (p_ham, p_spam)"
    using joint_loop_unseen_num [OF assms(1,2)] assms(3,4)
    by (simp add: joint_products_num_def Let_def)
  then show ?thesis by (simp add: classify_message_num_def Let_def)
qed

text \<open>
  In exact arithmetic the prior of an estimated model with \<open>alpha \<ge> 0\<close> sums to 1, and
  the posterior of such a message is the prior itself.
\<close>

lemma classify_message_unseen_exact:
  assumes "estimate_probabilities word_counts (n_ham, n_spam) alpha =
             Inr (p_word_class, (p_ham, p_spam))"
    and "0 \<le> alpha"
    and "\<forall>w \<in> set (split_words (clean_msg message)). \<not> dict_contains p_word_class w"
  shows "classify_message message (p_word_class, (p_ham, p_spam)) = Inr (p_ham, p_spam)"
proof -
  from estimate_probabilities_InrD [OF assms(1)]
  have tot: "n_ham + n_spam + 2 * alpha \<noteq> 0"
    and p: "p_ham = (if 0 < alpha then n_ham + alpha else n_ham) / (n_ham + n_spam + 2 * alpha)"
           "p_spam = (if 0 < alpha then n_spam + alpha else n_spam) / (n_ham + n_spam + 2 * alpha)"
    by simp_all
  have sum: "p_ham + p_spam = 1"
  proof (cases "0 < alpha")
    case True
    with tot p show ?thesis by (simp add: add_divide_distrib [symmetric])
  next
    case False
    with assms(2) have "alpha = 0" by simp
    with tot p show ?thesis by (simp add: add_divide_distrib [symmetric])
  qed
  have "classify_message_num exact_arith message (p_word_class, (p_ham, p_spam)) =
          Inr (p_ham, p_spam)"
    using classify_message_unseen_words [of message p_word_class exact_arith p_ham p_spam] assms(3) sum
    by (simp add: exact_arith_simps)
  then show ?thesis by (simp only: classify_message_num_exact)
qed

text \<open>
  The operations on doubles that the example below performs. \<open>alpha\<close> is the double
  \<open>0.1\<close>, which is \<open>3602879701896397 / 2^55\<close>.
\<close>

lemma double_arith_simps:
  "num_of_nat double_arith = double_of_nat" "num_add double_arith = double_add"
  "num_mul double_arith = double_mul" "num_div double_arith = double_div"
  "num_pos double_arith = (\<lambda>x. 0 < x)"
  by (simp_all add: double_arith_def)

lemma double_of_nat_0: "double_of_nat 0 = 0"
  by (simp add: double_of_nat_def round_double_def)

lemma double_of_nat_Suc_0:
  "double_of_nat (Suc 0) = 1"
proof -
  have a: "pow2 0 \<le> (of_nat (Suc 0) :: rat)"
    by (simp add: pow2_def)
  have b: "(of_nat (Suc 0) :: rat) < pow2 (0 + 1)"
    by (simp add: pow2_def)
  have c: "\<bar>(of_nat (Suc 0)) / pow2 (0 - 52) - of_int 4503599627370496\<bar> < (1 / 2 :: rat)"
    by (simp add: pow2_def)
  have d: "of_int 4503599627370496 * pow2 (0 - 52) = (1 :: rat)"
    by (simp add: pow2_def)
  show ?thesis
    unfolding double_of_nat_def using round_double_eqI [OF a b c] d by (simp only:)
qed

lemma double_of_nat_2:
  "double_of_nat 2 = 2"
proof -
  have a: "pow2 1 \<le> (of_nat 2 :: rat)"
    by (simp add: pow2_def)
  have b: "(of_nat 2 :: rat) < pow2 (1 + 1)"
    by (simp add: pow2_def)
  have c: "\<bar>(of_nat 2) / pow2 (1 - 52) - of_int 4503599627370496\<bar> < (1 / 2 :: rat)"
    by (simp add: pow2_def)
  have d: "of_int 4503599627370496 * pow2 (1 - 52) = (2 :: rat)"
    by (simp add: pow2_def)
  show ?thesis
    unfolding double_of_nat_def using round_double_eqI [OF a b c] d by (simp only:)
qed

lemma double_of_nat_4:
  "double_of_nat 4 = 4"
proof -
  have a: "pow2 2 \<le> (of_nat 4 :: rat)"
    by (simp add: pow2_def)
  have b: "(of_nat 4 :: rat) < pow2 (2 + 1)"
    by (simp add: pow2_def)
  have c: "\<bar>(of_nat 4) / pow2 (2 - 52) - of_int 4503599627370496\<bar> < (1 / 2 :: rat)"
    by (simp add: pow2_def)
  have d: "of_int 4503599627370496 * pow2 (2 - 52) = (4 :: rat)"
    by (simp add: pow2_def)
  show ?thesis
    unfolding double_of_nat_def using round_double_eqI [OF a b c] d by (simp only:)
qed

lemma double_of_nat_5:
  "double_of_nat 5 = 5"
proof -
  have a: "pow2 2 \<le> (of_nat 5 :: rat)"
    by (simp add: pow2_def)
  have b: "(of_nat 5 :: rat) < pow2 (2 + 1)"
    by (simp add: pow2_def)
  have c: "\<bar>(of_nat 5) / pow2 (2 - 52) - of_int 5629499534213120\<bar> < (1 / 2 :: rat)"
    by (simp add: pow2_def)
  have d: "of_int 5629499534213120 * pow2 (2 - 52) = (5 :: rat)"
    by (simp add: pow2_def)
  show ?thesis
    unfolding double_of_nat_def using round_double_eqI [OF a b c] d by (simp only:)
qed

lemma double_mul_2_alpha:
  "double_mul 2 (3602879701896397 / 36028797018963968) = 3602879701896397 / 18014398509481984"
proof -
  have a: "pow2 (-3) \<le> (2 * (3602879701896397 / 36028797018963968) :: rat)"
    by (simp add: pow2_def)
  have b: "(2 * (3602879701896397 / 36028797018963968) :: rat) < pow2 ((-3) + 1)"
    by (simp add: pow2_def)
  have c: "\<bar>(2 * (3602879701896397 / 36028797018963968)) / pow2 ((-3) - 52) - of_int 7205759403792794\<bar> < (1 / 2 :: rat)"
    by (simp add: pow2_def)
  have d: "of_int 7205759403792794 * pow2 ((-3) - 52) = (3602879701896397 / 18014398509481984 :: rat)"
    by (simp add: pow2_def)
  show ?thesis
    unfolding double_mul_def using round_double_eqI [OF a b c] d by (simp only:)
qed

lemma double_add_5_alpha2:
  "double_add 5 (3602879701896397 / 18014398509481984) = 5854679515581645 / 1125899906842624"
proof -
  have a: "pow2 2 \<le> (5 + 3602879701896397 / 18014398509481984 :: rat)"
    by (simp add: pow2_def)
  have b: "(5 + 3602879701896397 / 18014398509481984 :: rat) < pow2 (2 + 1)"
    by (simp add: pow2_def)
  have c: "\<bar>(5 + 3602879701896397 / 18014398509481984) / pow2 (2 - 52) - of_int 5854679515581645\<bar> < (1 / 2 :: rat)"
    by (simp add: pow2_def)
  have d: "of_int 5854679515581645 * pow2 (2 - 52) = (5854679515581645 / 1125899906842624 :: rat)"
    by (simp add: pow2_def)
  show ?thesis
    unfolding double_add_def using round_double_eqI [OF a b c] d by (simp only:)
qed

lemma double_add_1_alpha:
  "double_add 1 (3602879701896397 / 36028797018963968) = 2476979795053773 / 2251799813685248"
proof -
  have a: "pow2 0 \<le> (1 + 3602879701896397 / 36028797018963968 :: rat)"
    by (simp add: pow2_def)
  have b: "(1 + 3602879701896397 / 36028797018963968 :: rat) < pow2 (0 + 1)"
    by (simp add: pow2_def)
  have c: "\<bar>(1 + 3602879701896397 / 36028797018963968) / pow2 (0 - 52) - of_int 4953959590107546\<bar> < (1 / 2 :: rat)"
    by (simp add: pow2_def)
  have d: "of_int 4953959590107546 * pow2 (0 - 52) = (2476979795053773 / 2251799813685248 :: rat)"
    by (simp add: pow2_def)
  show ?thesis
    unfolding double_add_def using round_double_eqI [OF a b c] d by (simp only:)
qed

lemma double_add_4_alpha:
  "double_add 4 (3602879701896397 / 36028797018963968) = 2308094809027379 / 562949953421312"
proof -
  have a: "pow2 2 \<le> (4 + 3602879701896397 / 36028797018963968 :: rat)"
    by (simp add: pow2_def)
  have b: "(4 + 3602879701896397 / 36028797018963968 :: rat) < pow2 (2 + 1)"
    by (simp add: pow2_def)
  have c: "\<bar>(4 + 3602879701896397 / 36028797018963968) / pow2 (2 - 52) - of_int 4616189618054758\<bar> < (1 / 2 :: rat)"
    by (simp add: pow2_def)
  have d: "of_int 4616189618054758 * pow2 (2 - 52) = (2308094809027379 / 562949953421312 :: rat)"
    by (simp add: pow2_def)
  show ?thesis
    unfolding double_add_def using round_double_eqI [OF a b c] d by (simp only:)
qed

lemma double_div_n_ham_n_tot:
  "double_div (2476979795053773 / 2251799813685248) (5854679515581645 / 1125899906842624) = 7621476292473147 / 36028797018963968"
proof -
  have a: "pow2 (-3) \<le> (2476979795053773 / 2251799813685248 / (5854679515581645 / 1125899906842624) :: rat)"
    by (simp add: pow2_def)
  have b: "(2476979795053773 / 2251799813685248 / (5854679515581645 / 1125899906842624) :: rat) < pow2 ((-3) + 1)"
    by (simp add: pow2_def)
  have c: "\<bar>(2476979795053773 / 2251799813685248 / (5854679515581645 / 1125899906842624)) / pow2 ((-3) - 52) - of_int 7621476292473147\<bar> < (1 / 2 :: rat)"
    by (simp add: pow2_def)
  have d: "of_int 7621476292473147 * pow2 ((-3) - 52) = (7621476292473147 / 36028797018963968 :: rat)"
    by (simp add: pow2_def)
  show ?thesis
    unfolding double_div_def using round_double_eqI [OF a b c] d by (simp only:)
qed

lemma double_div_n_spam_n_tot:
  "double_div (2308094809027379 / 562949953421312) (5854679515581645 / 1125899906842624) = 443864386351419 / 562949953421312"
proof -
  have a: "pow2 (-1) \<le> (2308094809027379 / 562949953421312 / (5854679515581645 / 1125899906842624) :: rat)"
    by (simp add: pow2_def)
  have b: "(2308094809027379 / 562949953421312 / (5854679515581645 / 1125899906842624) :: rat) < pow2 ((-1) + 1)"
    by (simp add: pow2_def)
  have c: "\<bar>(2308094809027379 / 562949953421312 / (5854679515581645 / 1125899906842624)) / pow2 ((-1) - 52) - of_int 7101830181622704\<bar> < (1 / 2 :: rat)"
    by (simp add: pow2_def)
  have d: "of_int 7101830181622704 * pow2 ((-1) - 52) = (443864386351419 / 562949953421312 :: rat)"
    by (simp add: pow2_def)
  show ?thesis
    unfolding double_div_def using round_double_eqI [OF a b c] d by (simp only:)
qed

lemma double_div_n_ham_n_ham:
  "double_div (2476979795053773 / 2251799813685248) (2476979795053773 / 2251799813685248) = 1"
proof -
  have a: "pow2 0 \<le> (2476979795053773 / 2251799813685248 / (2476979795053773 / 2251799813685248) :: rat)"
    by (simp add: pow2_def)
  have b: "(2476979795053773 / 2251799813685248 / (2476979795053773 / 2251799813685248) :: rat) < pow2 (0 + 1)"
    by (simp add: pow2_def)
  have c: "\<bar>(2476979795053773 / 2251799813685248 / (2476979795053773 / 2251799813685248)) / pow2 (0 - 52) - of_int 4503599627370496\<bar> < (1 / 2 :: rat)"
    by (simp add: pow2_def)
  have d: "of_int 4503599627370496 * pow2 (0 - 52) = (1 :: rat)"
    by (simp add: pow2_def)
  show ?thesis
    unfolding double_div_def using round_double_eqI [OF a b c] d by (simp only:)
qed

lemma double_add_2_alpha:
  "double_add 2 (3602879701896397 / 36028797018963968) = 4728779608739021 / 2251799813685248"
proof -
  have a: "pow2 1 \<le> (2 + 3602879701896397 / 36028797018963968 :: rat)"
    by (simp add: pow2_def)
  have b: "(2 + 3602879701896397 / 36028797018963968 :: rat) < pow2 (1 + 1)"
    by (simp add: pow2_def)
  have c: "\<bar>(2 + 3602879701896397 / 36028797018963968) / pow2 (1 - 52) - of_int 4728779608739021\<bar> < (1 / 2 :: rat)"
    by (simp add: pow2_def)
  have d: "of_int 4728779608739021 * pow2 (1 - 52) = (4728779608739021 / 2251799813685248 :: rat)"
    by (simp add: pow2_def)
  show ?thesis
    unfolding double_add_def using round_double_eqI [OF a b c] d by (simp only:)
qed

lemma double_div_2_alpha_n_spam:
  "double_div (4728779608739021 / 2251799813685248) (2308094809027379 / 562949953421312) = 1153360880180249 / 2251799813685248"
proof -
  have a: "pow2 (-1) \<le> (4728779608739021 / 2251799813685248 / (2308094809027379 / 562949953421312) :: rat)"
    by (simp add: pow2_def)
  have b: "(4728779608739021 / 2251799813685248 / (2308094809027379 / 562949953421312) :: rat) < pow2 ((-1) + 1)"
    by (simp add: pow2_def)
  have c: "\<bar>(4728779608739021 / 2251799813685248 / (2308094809027379 / 562949953421312)) / pow2 ((-1) - 52) - of_int 4613443520720996\<bar> < (1 / 2 :: rat)"
    by (simp add: pow2_def)
  have d: "of_int 4613443520720996 * pow2 ((-1) - 52) = (1153360880180249 / 2251799813685248 :: rat)"
    by (simp add: pow2_def)
  show ?thesis
    unfolding double_div_def using round_double_eqI [OF a b c] d by (simp only:)
qed

lemma double_mul_1_1:
  "double_mul 1 1 = 1"
proof -
  have a: "pow2 0 \<le> (1 * (1) :: rat)"
    by (simp add: pow2_def)
  have b: "(1 * (1) :: rat) < pow2 (0 + 1)"
    by (simp add: pow2_def)
  have c: "\<bar>(1 * (1)) / pow2 (0 - 52) - of_int 4503599627370496\<bar> < (1 / 2 :: rat)"
    by (simp add: pow2_def)
  have d: "of_int 4503599627370496 * pow2 (0 - 52) = (1 :: rat)"
    by (simp add: pow2_def)
  show ?thesis
    unfolding double_mul_def using round_double_eqI [OF a b c] d by (simp only:)
qed

lemma double_mul_1_p_ham:
  "double_mul 1 (7621476292473147 / 36028797018963968) = 7621476292473147 / 36028797018963968"
proof -
  have a: "pow2 (-3) \<le> (1 * (7621476292473147 / 36028797018963968) :: rat)"
    by (simp add: pow2_def)
  have b: "(1 * (7621476292473147 / 36028797018963968) :: rat) < pow2 ((-3) + 1)"
    by (simp add: pow2_def)
  have c: "\<bar>(1 * (7621476292473147 / 36028797018963968)) / pow2 ((-3) - 52) - of_int 7621476292473147\<bar> < (1 / 2 :: rat)"
    by (simp add: pow2_def)
  have d: "of_int 7621476292473147 * pow2 ((-3) - 52) = (7621476292473147 / 36028797018963968 :: rat)"
    by (simp add: pow2_def)
  show ?thesis
    unfolding double_mul_def using round_double_eqI [OF a b c] d by (simp only:)
qed

lemma double_mul_1_p_spam:
  "double_mul 1 (443864386351419 / 562949953421312) = 443864386351419 / 562949953421312"
proof -
  have a: "pow2 (-1) \<le> (1 * (443864386351419 / 562949953421312) :: rat)"
    by (simp add: pow2_def)
  have b: "(1 * (443864386351419 / 562949953421312) :: rat) < pow2 ((-1) + 1)"
    by (simp add: pow2_def)
  have c: "\<bar>(1 * (443864386351419 / 562949953421312)) / pow2 ((-1) - 52) - of_int 7101830181622704\<bar> < (1 / 2 :: rat)"
    by (simp add: pow2_def)
  have d: "of_int 7101830181622704 * pow2 ((-1) - 52) = (443864386351419 / 562949953421312 :: rat)"
    by (simp add: pow2_def)
  show ?thesis
    unfolding double_mul_def using round_double_eqI [OF a b c] d by (simp only:)
qed

lemma double_add_p_ham_p_spam:
  "double_add (7621476292473147 / 36028797018963968) (443864386351419 / 562949953421312) = 9007199254740991 / 9007199254740992"
proof -
  have a: "pow2 (-1) \<le> (7621476292473147 / 36028797018963968 + 443864386351419 / 562949953421312 :: rat)"
    by (simp add: pow2_def)
  have b: "(7621476292473147 / 36028797018963968 + 443864386351419 / 562949953421312 :: rat) < pow2 ((-1) + 1)"
    by (simp add: pow2_def)
  have c: "\<bar>(7621476292473147 / 36028797018963968 + 443864386351419 / 562949953421312) / pow2 ((-1) - 52) - of_int 9007199254740991\<bar> < (1 / 2 :: rat)"
    by (simp add: pow2_def)
  have d: "of_int 9007199254740991 * pow2 ((-1) - 52) = (9007199254740991 / 9007199254740992 :: rat)"
    by (simp add: pow2_def)
  show ?thesis
    unfolding double_add_def using round_double_eqI [OF a b c] d by (simp only:)
qed

lemma double_div_p_ham_tot:
  "double_div (7621476292473147 / 36028797018963968) (9007199254740991 / 9007199254740992) = 1905369073118287 / 9007199254740992"
proof -
  have a: "pow2 (-3) \<le> (7621476292473147 / 36028797018963968 / (9007199254740991 / 9007199254740992) :: rat)"
    by (simp add: pow2_def)
  have b: "(7621476292473147 / 36028797018963968 / (9007199254740991 / 9007199254740992) :: rat) < pow2 ((-3) + 1)"
    by (simp add: pow2_def)
  have c: "\<bar>(7621476292473147 / 36028797018963968 / (9007199254740991 / 9007199254740992)) / pow2 ((-3) - 52) - of_int 7621476292473148\<bar> < (1 / 2 :: rat)"
    by (simp add: pow2_def)
  have d: "of_int 7621476292473148 * pow2 ((-3) - 52) = (1905369073118287 / 9007199254740992 :: rat)"
    by (simp add: pow2_def)
  show ?thesis
    unfolding double_div_def using round_double_eqI [OF a b c] d by (simp only:)
qed

lemma double_div_p_spam_tot:
  "double_div (443864386351419 / 562949953421312) (9007199254740991 / 9007199254740992) = 7101830181622705 / 9007199254740992"
proof -
  have a: "pow2 (-1) \<le> (443864386351419 / 562949953421312 / (9007199254740991 / 9007199254740992) :: rat)"
    by (simp add: pow2_def)
  have b: "(443864386351419 / 562949953421312 / (9007199254740991 / 9007199254740992) :: rat) < pow2 ((-1) + 1)"
    by (simp add: pow2_def)
  have c: "\<bar>(443864386351419 / 562949953421312 / (9007199254740991 / 9007199254740992)) / pow2 ((-1) - 52) - of_int 7101830181622705\<bar> < (1 / 2 :: rat)"
    by (simp add: pow2_def)
  have d: "of_int 7101830181622705 * pow2 ((-1) - 52) = (7101830181622705 / 9007199254740992 :: rat)"
    by (simp add: pow2_def)
  show ?thesis
    unfolding double_div_def using round_double_eqI [OF a b c] d by (simp only:)
qed

lemmas double_steps = double_of_nat_0 double_of_nat_Suc_0 double_of_nat_2 double_of_nat_4
  double_of_nat_5 double_mul_2_alpha double_add_5_alpha2 double_add_1_alpha
  double_add_4_alpha double_div_n_ham_n_tot double_div_n_spam_n_tot double_div_n_ham_n_ham
  double_add_2_alpha double_div_2_alpha_n_spam double_mul_1_1 double_mul_1_p_ham
  double_mul_1_p_spam double_add_p_ham_p_spam double_div_p_ham_tot double_div_p_spam_tot

text \<open>
  The witness and the counterexample are one computation in doubles. One ham and four
  spam messages, the word \<open>hi\<close> in one ham and two spam messages, and \<open>alpha = 0.1\<close>
  give the prior \<open>(0.21153846153846154, 0.7884615384615383)\<close>, whose sum in doubles is
  \<open>0.9999999999999999\<close>. The message \<open>zebra\<close> has no word of the model, and its
  posterior is \<open>(0.21153846153846156, 0.7884615384615384)\<close>.
\<close>

theorem classify_message_unseen_words_witness:
  "joint_products_num double_arith ''zebra''
     ([(''hi'', (1, 1153360880180249 / 2 ^ 51))],
      (7621476292473147 / 2 ^ 55, 443864386351419 / 2 ^ 49)) =
     (7621476292473147 / 2 ^ 55, 443864386351419 / 2 ^ 49) \<and>
   classify_message_num double_arith ''zebra''
     ([(''hi'', (1, 1153360880180249 / 2 ^ 51))],
      (7621476292473147 / 2 ^ 55, 443864386351419 / 2 ^ 49)) =
     Inr (1905369073118287 / 2 ^ 53, 7101830181622705 / 2 ^ 53)"
proof -
  have u: "\<forall>w \<in> set (split_words (clean_msg ''zebra'')).
             \<not> dict_contains ([(''hi'', (1, 1153360880180249 / 2 ^ 51))] :: (string, rat \<times> rat) dict) w"
    by code_simp
  have m: "num_mul double_arith (num_of_nat double_arith 1) (num_of_nat double_arith 1) =
             num_of_nat double_arith 1"
    "num_mul double_arith (num_of_nat double_arith 1) (7621476292473147 / 2 ^ 55) =
       7621476292473147 / 2 ^ 55"
    "num_mul double_arith (num_of_nat double_arith 1) (443864386351419 / 2 ^ 49) =
       443864386351419 / 2 ^ 49"
    by (simp_all add: double_arith_simps double_steps)
  from classify_message_unseen_words [OF u m]
  show ?thesis by (simp add: double_arith_simps double_steps)
qed

text \<open>
  C3, as stated, fails in the arithmetic of Python floats: the posterior of the
  message \<open>zebra\<close> differs from the class prior of the model in the last place of
  both numbers.
\<close>

theorem classify_message_unseen_words_counterexample:
  "estimate_probabilities_num double_arith [(''hi'', (1, 2))] (1, 4) (3602879701896397 / 2 ^ 55) =
     Inr ([(''hi'', (1, 1153360880180249 / 2 ^ 51))],
          (7621476292473147 / 2 ^ 55, 443864386351419 / 2 ^ 49)) \<and>
   classify_message_num double_arith ''zebra''
     ([(''hi'', (1, 1153360880180249 / 2 ^ 51))],
      (7621476292473147 / 2 ^ 55, 443864386351419 / 2 ^ 49)) =
     Inr (1905369073118287 / 2 ^ 53, 7101830181622705 / 2 ^ 53) \<and>
   (1905369073118287 / 2 ^ 53, 7101830181622705 / 2 ^ 53 :: rat) \<noteq>
     (7621476292473147 / 2 ^ 55, 443864386351419 / 2 ^ 49)"
proof -
  have t: "split_words (clean_msg ''zebra'') = [''zebra'']"
    by code_simp
  have e: "estimate_probabilities_num double_arith [(''hi'', (1, 2))] (1, 4)
             (3602879701896397 / 2 ^ 55) =
           Inr ([(''hi'', (1, 1153360880180249 / 2 ^ 51))],
                (7621476292473147 / 2 ^ 55, 443864386351419 / 2 ^ 49))"
    by (simp add: estimate_probabilities_num_def double_arith_simps double_steps Let_def)
  have c: "classify_message_num double_arith ''zebra''
             ([(''hi'', (1, 1153360880180249 / 2 ^ 51))],
              (7621476292473147 / 2 ^ 55, 443864386351419 / 2 ^ 49)) =
           Inr (1905369073118287 / 2 ^ 53, 7101830181622705 / 2 ^ 53)"
    by (simp add: classify_message_num_def joint_products_num_def t dict_get_def
          double_arith_simps double_steps Let_def)
  have n: "(1905369073118287 / 2 ^ 53, 7101830181622705 / 2 ^ 53 :: rat) \<noteq>
           (7621476292473147 / 2 ^ 55, 443864386351419 / 2 ^ 49)"
    by simp
  from e c n show ?thesis by (simp only: simp_thms)
qed

section \<open>Counters and the word counts\<close>

text \<open>
  The \<open>Counter\<close> of a set holds 1 for each element. Adding it to a counter with
  distinct keys adds 1 to the count of each element of the set and keeps the keys
  distinct, so \<open>count_words\<close> maps a word to the number of messages whose word set
  has it, and has no key for a word of no message.
\<close>

lemma dict_get_update:
  "dict_get (AList.update k v c) w d = (if w = k then v else dict_get c w d)"
  by (simp add: dict_get_def AList.update_conv')

lemma update_new_key:
  "k \<notin> fst ` set c \<Longrightarrow> AList.update k v c = c @ [(k, v)]"
  by (induction c) auto

lemma dict_get_new_key:
  "k \<notin> fst ` set c \<Longrightarrow> dict_get c k d = d"
  by (simp add: dict_get_def map_of_eq_None_iff [THEN iffD2])

lemma Counter_loop_distinct:
  "distinct xs \<Longrightarrow> set xs \<inter> fst ` set c = {} \<Longrightarrow>
   foldl (\<lambda>c elem. AList.update elem (dict_get c elem 0 + 1) c) c xs =
     c @ map (\<lambda>x. (x, 1 :: nat)) xs"
proof (induction xs arbitrary: c)
  case Nil
  show ?case by simp
next
  case (Cons x xs)
  from Cons.prems have x: "x \<notin> fst ` set c" by auto
  have step: "AList.update x (dict_get c x 0 + 1) c = c @ [(x, 1 :: nat)]"
    using x by (simp add: update_new_key dict_get_new_key)
  from Cons.prems have "distinct xs" "set xs \<inter> fst ` set (c @ [(x, 1 :: nat)]) = {}"
    by auto
  from Cons.IH [OF this] step show ?case by simp
qed

lemma Counter_distinct:
  "distinct xs \<Longrightarrow> Counter xs = map (\<lambda>x. (x, 1 :: nat)) xs"
  using Counter_loop_distinct [of xs "[]"] by (simp add: Counter_def)

lemma iadd_loop_get:
  "distinct xs \<Longrightarrow>
   dict_get (foldl (\<lambda>c (elem, count). AList.update elem (dict_get c elem 0 + count) c) c
               (map (\<lambda>x. (x, 1)) xs)) w 0 =
     dict_get c w (0 :: nat) + (if w \<in> set xs then 1 else 0)"
  by (induction xs arbitrary: c) (auto simp: dict_get_update)

lemma iadd_loop_distinct:
  "distinct (map fst c) \<Longrightarrow>
   distinct (map fst (foldl (\<lambda>c (elem, count). AList.update elem (dict_get c elem 0 + count) c)
                        c other))"
  by (induction other arbitrary: c) (auto simp: AList.distinct_update)

lemma map_of_keep_positive:
  "distinct (map fst c) \<Longrightarrow>
   map_of (keep_positive c) w =
     (if dict_get c w 0 = 0 then None else Some (dict_get c w 0))"
proof (induction c)
  case Nil
  show ?case by (simp add: keep_positive_def dict_get_def)
next
  case (Cons p c)
  obtain k n where p: "p = (k, n)" by (cases p)
  from Cons.prems p have k: "k \<notin> fst ` set c" and d: "distinct (map fst c)" by auto
  from k have none: "map_of c k = None" by (simp add: map_of_eq_None_iff)
  from Cons.IH [OF d] none show ?case
    by (auto simp: p keep_positive_def dict_get_def)
qed

lemma distinct_keep_positive:
  "distinct (map fst c) \<Longrightarrow> distinct (map fst (keep_positive c))"
  by (simp add: keep_positive_def distinct_map_filter)

lemma Counter_iadd_set:
  assumes "distinct (map fst c)" and "distinct xs"
  shows "distinct (map fst (Counter_iadd c (Counter xs)))"
    and "map_of (Counter_iadd c (Counter xs)) w =
           (if dict_get c w 0 + (if w \<in> set xs then 1 else 0) = 0 then None
            else Some (dict_get c w 0 + (if w \<in> set xs then 1 else 0)))"
proof -
  let ?l = "foldl (\<lambda>c (elem, count). AList.update elem (dict_get c elem 0 + count) c) c
              (map (\<lambda>x. (x, 1)) xs)"
  have c: "Counter_iadd c (Counter xs) = keep_positive ?l"
    by (simp add: Counter_iadd_def Counter_distinct [OF assms(2)])
  have d: "distinct (map fst ?l)"
    using iadd_loop_distinct [OF assms(1)] .
  show "distinct (map fst (Counter_iadd c (Counter xs)))"
    using distinct_keep_positive [OF d] c by simp
  show "map_of (Counter_iadd c (Counter xs)) w =
           (if dict_get c w 0 + (if w \<in> set xs then 1 else 0) = 0 then None
            else Some (dict_get c w 0 + (if w \<in> set xs then 1 else 0)))"
    using map_of_keep_positive [OF d, of w] iadd_loop_get [OF assms(2), of c w] c by simp
qed

lemma distinct_split_words: "distinct (split_words msg)"
  by (simp add: split_words_def)

lemma count_words_loop:
  assumes "distinct (map fst c)" and "\<And>w. map_of c w \<noteq> Some 0"
  shows "distinct (map fst (foldl (\<lambda>word_dict msg.
             Counter_iadd word_dict (Counter (split_words (clean_msg msg)))) c msg_list)) \<and>
         (\<forall>w. map_of (foldl (\<lambda>word_dict msg.
             Counter_iadd word_dict (Counter (split_words (clean_msg msg)))) c msg_list) w =
           (if dict_get c w 0 + length [m \<leftarrow> msg_list. w \<in> set (split_words (clean_msg m))] = 0
            then None
            else Some (dict_get c w 0 +
                       length [m \<leftarrow> msg_list. w \<in> set (split_words (clean_msg m))])))"
  using assms
proof (induction msg_list arbitrary: c)
  case Nil
  have "map_of c w = (if dict_get c w 0 = 0 then None else Some (dict_get c w 0))" for w
    using Nil.prems(2) [of w] by (cases "map_of c w") (auto simp: dict_get_def)
  with Nil.prems(1) show ?case by simp
next
  case (Cons msg msg_list)
  let ?c = "Counter_iadd c (Counter (split_words (clean_msg msg)))"
  note s = Counter_iadd_set [OF Cons.prems(1) distinct_split_words, of "clean_msg msg"]
  have d: "distinct (map fst ?c)" using s(1) .
  have z: "map_of ?c w \<noteq> Some 0" for w
    using s(2) [of w] by (simp split: if_splits)
  have g: "dict_get ?c w 0 =
             dict_get c w 0 + (if w \<in> set (split_words (clean_msg msg)) then 1 else 0)" for w
    using s(2) [of w] by (simp add: dict_get_def [of ?c] split: if_splits)
  from Cons.IH [OF d z] show ?case
    by (simp add: g)
qed

lemma count_words_lookup:
  "map_of (count_words msg_list) w =
     (if length [m \<leftarrow> msg_list. w \<in> set (split_words (clean_msg m))] = 0 then None
      else Some (length [m \<leftarrow> msg_list. w \<in> set (split_words (clean_msg m))]))"
  using count_words_loop [of "[]" msg_list]
  by (simp add: count_words_def dict_get_def)

lemma map_of_foldl_update_keys:
  "map_of (foldl (\<lambda>d w. AList.update w (g w) d) acc ws) w =
     (if w \<in> set ws then Some (g w) else map_of acc w)"
  by (induction ws arbitrary: acc) (auto simp: AList.update_conv')

lemma length_filter_class:
  "length [m \<leftarrow> [m . (a, m) \<leftarrow> ann_msg_list, a = c]. P m] =
   length [p \<leftarrow> ann_msg_list. fst p = c \<and> P (snd p)]"
  by (induction ann_msg_list) auto

lemma count_words_in_ham_and_spam_lookup:
  "map_of (count_words_in_ham_and_spam ann_msg_list) w =
     (if length [p \<leftarrow> ann_msg_list. fst p = ''ham'' \<and> w \<in> set (split_words (clean_msg (snd p)))] = 0 \<and>
         length [p \<leftarrow> ann_msg_list. fst p = ''spam'' \<and> w \<in> set (split_words (clean_msg (snd p)))] = 0
      then None
      else Some
        (length [p \<leftarrow> ann_msg_list. fst p = ''ham'' \<and> w \<in> set (split_words (clean_msg (snd p)))],
         length [p \<leftarrow> ann_msg_list. fst p = ''spam'' \<and> w \<in> set (split_words (clean_msg (snd p)))]))"
proof -
  let ?ham = "count_words [m . (a, m) \<leftarrow> ann_msg_list, a = ''ham'']"
  let ?spam = "count_words [m . (a, m) \<leftarrow> ann_msg_list, a = ''spam'']"
  let ?h = "length [p \<leftarrow> ann_msg_list. fst p = ''ham'' \<and> w \<in> set (split_words (clean_msg (snd p)))]"
  let ?s = "length [p \<leftarrow> ann_msg_list. fst p = ''spam'' \<and> w \<in> set (split_words (clean_msg (snd p)))]"
  have h: "map_of ?ham w = (if ?h = 0 then None else Some ?h)"
    unfolding count_words_lookup length_filter_class ..
  have s: "map_of ?spam w = (if ?s = 0 then None else Some ?s)"
    unfolding count_words_lookup length_filter_class ..
  have gh: "dict_get ?ham w 0 = ?h"
    unfolding dict_get_def h by simp
  have gs: "dict_get ?spam w 0 = ?s"
    unfolding dict_get_def s by simp
  have keys: "w \<in> set (remdups (map fst ?ham @ map fst ?spam)) \<longleftrightarrow> \<not> (?h = 0 \<and> ?s = 0)"
  proof -
    have "w \<in> fst ` set ?ham \<longleftrightarrow> ?h \<noteq> 0"
      using h map_of_eq_None_iff [of ?ham w] by (simp split: if_splits)
    moreover have "w \<in> fst ` set ?spam \<longleftrightarrow> ?s \<noteq> 0"
      using s map_of_eq_None_iff [of ?spam w] by (simp split: if_splits)
    ultimately show ?thesis by auto
  qed
  have "map_of (count_words_in_ham_and_spam ann_msg_list) w =
          (if w \<in> set (remdups (map fst ?ham @ map fst ?spam))
           then Some (dict_get ?ham w 0, dict_get ?spam w 0) else None)"
    unfolding count_words_in_ham_and_spam_def Let_def
    using map_of_foldl_update_keys
            [of "\<lambda>w. (dict_get ?ham w 0, dict_get ?spam w 0)" "[]"
                "remdups (map fst ?ham @ map fst ?spam)" w]
    by simp
  then show ?thesis unfolding keys gh gs by simp
qed

section \<open>Claims on the corpus counters\<close>

text \<open>
  C7. An entry whose label is neither \<open>ham\<close> nor \<open>spam\<close>, anywhere in the list,
  changes neither the result of \<open>count_ham_and_spam\<close> nor the result of
  \<open>count_words_in_ham_and_spam\<close>: both are what they are on the list without that
  entry. Both functions are total and have no exception among their results.
\<close>

theorem other_labels_ignored:
  assumes "a \<noteq> ''ham''" and "a \<noteq> ''spam''"
  shows "count_ham_and_spam (xs @ (a, m) # ys) = count_ham_and_spam (xs @ ys) \<and>
         count_words_in_ham_and_spam (xs @ (a, m) # ys) = count_words_in_ham_and_spam (xs @ ys)"
  using assms by (simp add: count_ham_and_spam_def count_words_in_ham_and_spam_def)

theorem other_labels_ignored_witness:
  "count_ham_and_spam [(''ham'', ''hello''), (''unknown'', ''hello you''), (''spam'', ''win'')] = (1, 1) \<and>
   count_words_in_ham_and_spam [(''ham'', ''hello''), (''unknown'', ''hello you''), (''spam'', ''win'')] =
     [(''hello'', (1, 0)), (''win'', (0, 1))]"
proof -
  have l: "''unknown'' \<noteq> ''ham''" "''unknown'' \<noteq> ''spam''"
    by simp_all
  have c: "count_ham_and_spam [(''ham'', ''hello''), (''spam'', ''win'')] = (1, 1)"
    by code_simp
  have w: "count_words_in_ham_and_spam [(''ham'', ''hello''), (''spam'', ''win'')] =
             [(''hello'', (1, 0)), (''win'', (0, 1))]"
    by code_simp
  from other_labels_ignored [OF l, of "[(''ham'', ''hello'')]" "''hello you''" "[(''spam'', ''win'')]"] c w
  show ?thesis by simp
qed

text \<open>
  C6. In the result of \<open>count_words_in_ham_and_spam\<close> the ham count of a word is
  the number of ham messages whose set of words contains it, and the spam count the
  number of such spam messages; a word of no ham and no spam message is not a key.
  So one message adds 1 to the count of each of its words for its class, however
  often the word is written in it.
\<close>

theorem count_words_presence:
  "map_of (count_words_in_ham_and_spam ann_msg_list) w =
     (let n_ham = length [(a, m) \<leftarrow> ann_msg_list. a = ''ham'' \<and> w \<in> set (split_words (clean_msg m))];
          n_spam = length [(a, m) \<leftarrow> ann_msg_list. a = ''spam'' \<and> w \<in> set (split_words (clean_msg m))]
      in if n_ham = 0 \<and> n_spam = 0 then None else Some (n_ham, n_spam))"
  unfolding count_words_in_ham_and_spam_lookup Let_def case_prod_unfold ..

theorem count_words_presence_witness:
  "map_of (count_words_in_ham_and_spam
             [(''ham'', ''hello hello world''), (''spam'', ''Hello, hello! HELLO''), (''ham'', ''bye'')])
     ''hello'' = Some (1, 1)"
proof -
  have t: "set (split_words (clean_msg ''hello hello world'')) = {''hello'', ''world''}"
    "set (split_words (clean_msg ''Hello, hello! HELLO'')) = {''hello''}"
    "set (split_words (clean_msg ''bye'')) = {''bye''}"
    by code_simp+
  show ?thesis
    using count_words_presence
      [of "[(''ham'', ''hello hello world''), (''spam'', ''Hello, hello! HELLO''), (''ham'', ''bye'')]"
          "''hello''"]
    by (simp add: t)
qed

section \<open>Claims on \<open>predict_word_proba\<close>\<close>

text \<open>
  Every word that \<open>fit\<close> has counted is in at least one ham or spam message, so
  the loop of \<open>predict_word_proba\<close> never divides by zero on an object that
  \<open>fit\<close> has been called on.
\<close>

lemma word_counts_positive:
  assumes "map_of (count_words_in_ham_and_spam ann_msg_list) w = Some (n_w_ham, n_w_spam)"
  shows "0 < n_w_ham + n_w_spam"
  using assms unfolding count_words_in_ham_and_spam_lookup
  by (auto split: if_splits)

lemma word_proba_loop_Inr:
  assumes "\<And>w n_w_ham n_w_spam. map_of wc w = Some (n_w_ham, n_w_spam) \<Longrightarrow> 0 < n_w_ham + n_w_spam"
  shows "word_proba_loop alpha (Some wc) words res =
           Inr (foldl (\<lambda>res w.
                  if dict_contains wc w
                  then AList.update w
                         (case dict_get wc w (0, 0) of (n_w_ham, n_w_spam) \<Rightarrow>
                            ((if 0 < alpha then real n_w_ham + alpha else real n_w_ham) /
                               ((if 0 < alpha then real n_w_ham + alpha else real n_w_ham) +
                                (if 0 < alpha then real n_w_spam + alpha else real n_w_spam)),
                             (if 0 < alpha then real n_w_spam + alpha else real n_w_spam) /
                               ((if 0 < alpha then real n_w_ham + alpha else real n_w_ham) +
                                (if 0 < alpha then real n_w_spam + alpha else real n_w_spam)))) res
                  else res) res words)"
proof (induction words arbitrary: res)
  case Nil
  show ?case by simp
next
  case (Cons w words)
  show ?case
  proof (cases "dict_contains wc w")
    case False
    with Cons.IH show ?thesis by simp
  next
    case True
    then obtain h s where m: "map_of wc w = Some (h, s)"
      by (auto simp: dict_contains_def)
    then have g: "dict_get wc w (0, 0) = (h, s)"
      by (simp add: dict_get_def)
    from assms [OF m] have "0 < real h + real s" by linarith
    then have tot: "(if 0 < alpha then real h + alpha else real h) +
                    (if 0 < alpha then real s + alpha else real s) \<noteq> 0"
      by auto
    from True g tot Cons.IH show ?thesis by (simp add: Let_def)
  qed
qed

lemma map_of_foldl_update_if:
  "map_of (foldl (\<lambda>res w. if P w then AList.update w (g w) res else res) acc ws) w =
     (if w \<in> set ws \<and> P w then Some (g w) else map_of acc w)"
  by (induction ws arbitrary: acc) (auto simp: AList.update_conv')

lemma fit_word_counts:
  assumes "fit self0 messages classes = (outcome, self)"
  shows "sd_word_counts self = Some (count_words_in_ham_and_spam (zip classes messages)) \<and>
         sd_alpha self = sd_alpha self0"
  using assms by (auto simp: fit_def Let_def split: sum.splits prod.splits)

text \<open>
  C8, as the code has it. On the object that a call of \<open>fit\<close> leaves, whether the
  call returned or raised, \<open>predict_word_proba\<close> returns a dict whose keys are the
  words of the message that are keys of the word counts. The value of such a word with
  counts \<open>(n_w_ham, n_w_spam)\<close> is \<open>(h / (h + s), s / (h + s))\<close>, where \<open>h\<close> and
  \<open>s\<close> are the two counts, each increased by \<open>alpha\<close> when \<open>alpha > 0\<close>: the
  share of each class among the messages with the word.
\<close>

theorem predict_word_proba_shares:
  assumes "fit self0 messages classes = (outcome, self)"
    and "sd_word_counts self = Some word_counts"
  shows "\<exists>res. predict_word_proba self message = Inr res \<and>
           (\<forall>w. map_of res w =
              (if w \<in> set (split_words (clean_msg message))
               then map_option
                      (\<lambda>(n_w_ham, n_w_spam).
                         ((if 0 < sd_alpha self then real n_w_ham + sd_alpha self else real n_w_ham) /
                            ((if 0 < sd_alpha self then real n_w_ham + sd_alpha self else real n_w_ham) +
                             (if 0 < sd_alpha self then real n_w_spam + sd_alpha self else real n_w_spam)),
                          (if 0 < sd_alpha self then real n_w_spam + sd_alpha self else real n_w_spam) /
                            ((if 0 < sd_alpha self then real n_w_ham + sd_alpha self else real n_w_ham) +
                             (if 0 < sd_alpha self then real n_w_spam + sd_alpha self else real n_w_spam))))
                      (map_of word_counts w)
               else None))"
proof -
  from fit_word_counts [OF assms(1)] assms(2)
  have wc: "word_counts = count_words_in_ham_and_spam (zip classes messages)" by simp
  have pos: "0 < n_w_ham + n_w_spam" if "map_of word_counts w = Some (n_w_ham, n_w_spam)"
    for w n_w_ham n_w_spam
    using that word_counts_positive unfolding wc by blast
  let ?f = "\<lambda>(n_w_ham, n_w_spam).
              ((if 0 < sd_alpha self then real n_w_ham + sd_alpha self else real n_w_ham) /
                 ((if 0 < sd_alpha self then real n_w_ham + sd_alpha self else real n_w_ham) +
                  (if 0 < sd_alpha self then real n_w_spam + sd_alpha self else real n_w_spam)),
               (if 0 < sd_alpha self then real n_w_spam + sd_alpha self else real n_w_spam) /
                 ((if 0 < sd_alpha self then real n_w_ham + sd_alpha self else real n_w_ham) +
                  (if 0 < sd_alpha self then real n_w_spam + sd_alpha self else real n_w_spam)))"
  let ?res = "foldl (\<lambda>res w. if dict_contains word_counts w
                     then AList.update w (?f (dict_get word_counts w (0, 0))) res else res)
                [] (split_words (clean_msg message))"
  have r: "predict_word_proba self message = Inr ?res"
    unfolding predict_word_proba_def Let_def assms(2)
    using word_proba_loop_Inr [of word_counts "sd_alpha self" "split_words (clean_msg message)" "[]", OF pos]
    by simp
  have l: "map_of ?res w =
             (if w \<in> set (split_words (clean_msg message))
              then map_option ?f (map_of word_counts w) else None)" for w
    unfolding map_of_foldl_update_if [of "dict_contains word_counts"
                 "\<lambda>w. ?f (dict_get word_counts w (0, 0))"]
    by (cases "map_of word_counts w") (auto simp: dict_contains_def dict_get_def)
  from r l show ?thesis by blast
qed

theorem predict_word_proba_shares_witness:
  "\<exists>res. predict_word_proba
            \<lparr>sd_alpha = 1,
             sd_word_counts = Some [(''hi'', 1, 0), (''free'', 0, 1), (''money'', 0, 1)],
             sd_n_train_messages = Some 2, sd_n_ham = Some 1, sd_n_spam = Some 1,
             sd_prob_info = None\<rparr>
            ''Hi, free zebra'' = Inr res \<and>
         map_of res ''hi'' = Some (2 / 3, 1 / 3) \<and>
         map_of res ''free'' = Some (1 / 3, 2 / 3) \<and>
         map_of res ''zebra'' = None \<and>
         map_of res ''money'' = None"
proof -
  let ?wc = "[(''hi'', 1, 0), (''free'', 0, 1), (''money'', 0, 1)] :: (string, nat \<times> nat) dict"
  let ?self = "\<lparr>sd_alpha = 1, sd_word_counts = Some ?wc,
                 sd_n_train_messages = Some 2, sd_n_ham = Some 1, sd_n_spam = Some 1,
                 sd_prob_info = None\<rparr>"
  have f: "fit (init 1) [''free money'', ''hi''] [''spam'', ''ham''] = (Inl NameError, ?self)"
    by code_simp
  have c: "sd_word_counts ?self = Some ?wc"
    by simp
  have t: "set (split_words (clean_msg ''Hi, free zebra'')) = {''hi'', ''free'', ''zebra''}"
    by code_simp
  obtain res where r: "predict_word_proba ?self ''Hi, free zebra'' = Inr res"
    and l: "\<And>w. map_of res w =
              (if w \<in> set (split_words (clean_msg ''Hi, free zebra''))
               then map_option
                      (\<lambda>(n_w_ham, n_w_spam).
                         ((real n_w_ham + 1) / ((real n_w_ham + 1) + (real n_w_spam + 1)),
                          (real n_w_spam + 1) / ((real n_w_ham + 1) + (real n_w_spam + 1))))
                      (map_of ?wc w)
               else None)"
    using predict_word_proba_shares [OF f c, of "''Hi, free zebra''"] by auto
  from r l [of "''hi''"] l [of "''free''"] l [of "''zebra''"] l [of "''money''"]
  show ?thesis by (simp add: t)
qed

text \<open>
  C8, as stated, fails. The call of \<open>fit\<close> on the spam message \<open>free money\<close> and the
  ham message \<open>hi\<close> with \<open>alpha = 1\<close> raises NameError and leaves the object with its
  word counts and class counts. The conditional probabilities of \<open>hi\<close> that
  \<open>estimate_probabilities\<close> computes from these counts are \<open>(1, 1/2)\<close>, and
  \<open>predict_word_proba\<close> gives \<open>(2/3, 1/3)\<close> for \<open>hi\<close> on that object.
\<close>

theorem predict_word_proba_counterexample:
  "fit (init 1) [''free money'', ''hi''] [''spam'', ''ham''] =
     (Inl NameError,
      \<lparr>sd_alpha = 1,
       sd_word_counts = Some [(''hi'', 1, 0), (''free'', 0, 1), (''money'', 0, 1)],
       sd_n_train_messages = Some 2, sd_n_ham = Some 1, sd_n_spam = Some 1,
       sd_prob_info = None\<rparr>) \<and>
   predict_word_proba
     \<lparr>sd_alpha = 1,
      sd_word_counts = Some [(''hi'', 1, 0), (''free'', 0, 1), (''money'', 0, 1)],
      sd_n_train_messages = Some 2, sd_n_ham = Some 1, sd_n_spam = Some 1,
      sd_prob_info = None\<rparr>
     ''hi'' = Inr [(''hi'', 2 / 3, 1 / 3)] \<and>
   estimate_probabilities [(''hi'', 1, 0), (''free'', 0, 1), (''money'', 0, 1)] (1, 1) 1 =
     Inr ([(''hi'', 1, 1 / 2), (''free'', 1 / 2, 1), (''money'', 1 / 2, 1)], 1 / 2, 1 / 2) \<and>
   (2 / 3 :: real, 1 / 3 :: real) \<noteq> (1, 1 / 2)"
  by code_simp

section \<open>Claims on \<open>predict\<close>\<close>

text \<open>
  Every call of \<open>fit\<close> raises NameError, after it has stored the counts.
\<close>

lemma fit_raises:
  "fst (fit self messages classes) = Inl NameError"
  by (simp add: fit_def load_global_def detector_globals_def Let_def case_prod_unfold)

text \<open>
  C5. On every object and every single message \<open>predict_proba\<close> raises NameError,
  and so does \<open>predict\<close>: the name \<open>classify_message\<close> is not bound where
  \<open>predict_proba\<close> looks it up. No label is returned, and the comparison of
  \<open>p_ham\<close> with 0.5 is not reached.
\<close>

theorem predict_single_raises:
  "predict_proba self (Single message) = Inl NameError \<and>
   predict self (Single message) = Inl NameError"
  by (simp add: predict_def classify_with_def load_global_def detector_globals_def)

end
